theory Spec2Isabelle
  imports Main
begin

section \<open>Python strings\<close>

text \<open>
  A Python \<open>str\<close> is a sequence of Unicode code points, so it is modelled as a list of
  natural numbers. The Vietnamese literals of the source are written out as code points;
  ASCII literals are written with \<open>ascii\<close>.
\<close>

type_synonym pystr = "nat list"

definition ascii :: "string \<Rightarrow> pystr" where
  "ascii s = map of_char s"

text \<open>\<open>str.isspace\<close> for one code point: the white-space table of CPython.\<close>

definition py_isspace :: "nat \<Rightarrow> bool" where
  "py_isspace c \<longleftrightarrow>
     (9 \<le> c \<and> c \<le> 13) \<or> (28 \<le> c \<and> c \<le> 32) \<or> c = 133 \<or> c = 160 \<or> c = 5760 \<or>
     (8192 \<le> c \<and> c \<le> 8202) \<or> c = 8232 \<or> c = 8233 \<or> c = 8239 \<or> c = 8287 \<or> c = 12288"

text \<open>\<open>s.strip()\<close>: white space removed at both ends.\<close>

definition strip :: "pystr \<Rightarrow> pystr" where
  "strip s = rev (dropWhile py_isspace (rev (dropWhile py_isspace s)))"

text \<open>\<open>s.startswith(p)\<close> and \<open>p in s\<close>.\<close>

fun startswith :: "pystr \<Rightarrow> pystr \<Rightarrow> bool" where
  "startswith s [] = True"
| "startswith [] (p # ps) = False"
| "startswith (c # cs) (p # ps) = (c = p \<and> startswith cs ps)"

fun contains :: "pystr \<Rightarrow> pystr \<Rightarrow> bool" where
  "contains [] p = (p = [])"
| "contains (c # cs) p = (startswith (c # cs) p \<or> contains cs p)"

text \<open>
  \<open>s.split(" ", 1)\<close>: the text before the first space and the text after it, or the
  whole text alone when it has no space.
\<close>

definition split_space1 :: "pystr \<Rightarrow> pystr list" where
  "split_space1 s =
     (case dropWhile (\<lambda>c. c \<noteq> 32) s of
        [] \<Rightarrow> [s]
      | _ # rest \<Rightarrow> [takeWhile (\<lambda>c. c \<noteq> 32) s, rest])"

text \<open>\<open>str(n)\<close> for an integer: decimal digits, with a minus sign when negative.\<close>

fun str_nat :: "nat \<Rightarrow> pystr" where
  "str_nat n = (if n < 10 then [48 + n] else str_nat (n div 10) @ [48 + n mod 10])"

declare str_nat.simps [simp del]

definition str_int :: "int \<Rightarrow> pystr" where
  "str_int i = (if i < 0 then 45 # str_nat (nat (- i)) else str_nat (nat i))"

text \<open>
  \<open>str.lower\<close> is CPython's full Unicode case mapping; it is a parameter of the handlers
  below. \<open>lower_ascii\<close> is the instance used to run the model on concrete inputs: it is
  what \<open>str.lower\<close> computes on every text whose code points outside \<open>A\<close>-\<open>Z\<close> have no
  lower-case mapping (ASCII text, and the lower-case Vietnamese keywords).
\<close>

definition lower_ascii :: "pystr \<Rightarrow> pystr" where
  "lower_ascii s = map (\<lambda>c. if 65 \<le> c \<and> c \<le> 90 then c + 32 else c) s"

section \<open>Exceptions\<close>

datatype exn = IndexError | KeyError | ServiceError | FileNotFoundError | UnicodeEncodeError | OSError

section \<open>The conversation store\<close>

text \<open>
  \<open>collections.deque(maxlen=n)\<close>: \<open>append\<close> adds at the right and, when the length
  then exceeds \<open>maxlen\<close>, removes one element at the left.
\<close>

record 'a deque =
  maxlen :: nat
  items :: "'a list"

definition deque_new :: "nat \<Rightarrow> 'a deque" where
  "deque_new n = \<lparr>maxlen = n, items = []\<rparr>"

definition deque_append :: "'a deque \<Rightarrow> 'a \<Rightarrow> 'a deque" where
  "deque_append d x =
     (let ys = items d @ [x]
      in d\<lparr>items := (if maxlen d < length ys then tl ys else ys)\<rparr>)"

definition deque_clear :: "'a deque \<Rightarrow> 'a deque" where
  "deque_clear d = d\<lparr>items := []\<rparr>"

text \<open>A turn is the dict \<open>{"role": ..., "content": ...}\<close>.\<close>

record message =
  role :: pystr
  content :: pystr

datatype artifact = Pdf_artifact int pystr pystr pystr | Text_artifact pystr

text \<open>
  The state the handlers act on: the global \<open>user_context\<close>, the replies sent with
  \<open>bot.reply_to\<close> (oldest first), the files under \<open>MEDIA_DIR\<close>, and the requests sent
  to the completion service (messages and \<open>max_tokens\<close>, oldest first).
\<close>

record world =
  user_context :: "int \<rightharpoonup> message deque"
  outbox :: "pystr list"
  files :: "pystr \<rightharpoonup> artifact"
  requests :: "(message list \<times> nat) list"

definition ensure_context :: "int \<Rightarrow> world \<Rightarrow> world" where
  "ensure_context uid w =
     (case user_context w uid of
        None \<Rightarrow> w\<lparr>user_context := (user_context w)(uid \<mapsto> deque_new 24)\<rparr>
      | Some d \<Rightarrow> w)"

text \<open>
  \<open>user_context[uid].append(turn)\<close>. The lookup raises \<open>KeyError\<close> on a missing key;
  every caller runs \<open>ensure_context\<close> first, so that branch is never taken
  (\<open>ensure_context_defined\<close>), and it leaves the state as it is.
\<close>

definition context_append :: "int \<Rightarrow> message \<Rightarrow> world \<Rightarrow> world" where
  "context_append uid t w =
     (case user_context w uid of
        None \<Rightarrow> w
      | Some d \<Rightarrow> w\<lparr>user_context := (user_context w)(uid \<mapsto> deque_append d t)\<rparr>)"

definition push_user :: "int \<Rightarrow> pystr \<Rightarrow> world \<Rightarrow> world" where
  "push_user uid text w =
     context_append uid \<lparr>role = ascii ''user'', content = text\<rparr> (ensure_context uid w)"

definition push_assistant :: "int \<Rightarrow> pystr \<Rightarrow> world \<Rightarrow> world" where
  "push_assistant uid text w =
     context_append uid \<lparr>role = ascii ''assistant'', content = text\<rparr> (ensure_context uid w)"

text \<open>The current turns of a user, oldest first; a user never seen has none.\<close>

definition history :: "world \<Rightarrow> int \<Rightarrow> message list" where
  "history w uid = (case user_context w uid of None \<Rightarrow> [] | Some d \<Rightarrow> items d)"

text \<open>
  \<open>SYSTEM_PROMPT\<close>, code point by code point (a Vietnamese instruction that starts
  "Ban la tro ly chuyen gia giam dinh bao hiem xe co gioi cho Mr.P.").
\<close>

definition SYSTEM_PROMPT :: pystr where
  "SYSTEM_PROMPT =
     [66, 7841, 110, 32, 108, 224, 32, 116, 114, 7907, 32, 108, 253, 32, 99, 104, 117, 121,
      234, 110, 32, 103, 105, 97, 32, 103, 105, 225, 109, 32, 273, 7883, 110, 104, 32, 98,
      7843, 111, 32, 104, 105, 7875, 109, 32, 120, 101, 32, 99, 417, 32, 103, 105, 7899, 105,
      32, 99, 104, 111, 32, 77, 114, 46, 80, 46, 32, 84, 114, 7843, 32, 108, 7901, 105, 32,
      110, 103, 7855, 110, 32, 103, 7885, 110, 44, 32, 99, 104, 237, 110, 104, 32, 120, 225,
      99, 44, 32, 110, 234, 117, 32, 110, 103, 117, 121, 234, 110, 32, 110, 104, 226, 110, 44,
      32, 109, 7913, 99, 32, 273, 7897, 32, 108, 7895, 105, 44, 32, 116, 224, 105, 32, 108,
      105, 7879, 117, 32, 99, 7847, 110, 32, 116, 104, 117, 32, 116, 104, 7853, 112, 44, 32,
      118, 224, 32, 98, 432, 7899, 99, 32, 120, 7917, 32, 108, 253, 32, 116, 105, 7871, 112,
      32, 116, 104, 101, 111, 46, 32, 83, 7917, 32, 100, 7909, 110, 103, 32, 116, 105, 7871,
      110, 103, 32, 86, 105, 7879, 116, 46, 32, 84, 114, 7843, 32, 108, 7901, 105, 32, 116,
      104, 7859, 110, 103, 44, 32, 107, 104, 244, 110, 103, 32, 118, 242, 110, 103, 32, 118,
      111, 46]"

text \<open>
  \<open>build_messages\<close>: the system turn followed by \<open>list(user_context[uid])\<close>, a new list
  of the current turns. It returns the messages and the state, which \<open>ensure_context\<close>
  may have changed.
\<close>

definition build_messages :: "int \<Rightarrow> pystr \<Rightarrow> world \<Rightarrow> message list \<times> world" where
  "build_messages uid system_prompt w =
     (let w1 = ensure_context uid w
      in (\<lparr>role = ascii ''system'', content = system_prompt\<rparr> # history w1 uid, w1))"

text \<open>
  \<open>bot.reply_to(m, text)\<close>: the reply is sent to the chat of the message. The
  transport is an external collaborator and is taken to deliver.
\<close>

definition reply_to :: "pystr \<Rightarrow> world \<Rightarrow> world" where
  "reply_to text w = w\<lparr>outbox := outbox w @ [text]\<rparr>"

text \<open>The greeting of \<open>/start\<close> ("Chao! Gui anh hien truong, ...").\<close>

definition MSG_START :: pystr where
  "MSG_START =
     [67, 104, 224, 111, 33, 32, 71, 7917, 105, 32, 7843, 110, 104, 32, 104, 105, 7879, 110,
      32, 116, 114, 432, 7901, 110, 103, 44, 32, 80, 68, 70, 32, 98, 105, 234, 110, 32, 98,
      7843, 110, 32, 104, 111, 7863, 99, 32, 109, 244, 32, 116, 7843, 32, 118, 7909, 32, 118,
      105, 7879, 99, 32, 273, 7875, 32, 116, 244, 105, 32, 112, 104, 226, 110, 32, 116, 237,
      99, 104, 46, 32, 71, 245, 32, 39, 116, 7841, 111, 32, 98, 225, 111, 32, 99, 225, 111,
      39, 32, 273, 7875, 32, 120, 117, 7845, 116, 32, 80, 68, 70, 46]"

text \<open>\<open>user_context[uid].clear()\<close>, with the same remark on \<open>KeyError\<close> as above.\<close>

definition context_clear :: "int \<Rightarrow> world \<Rightarrow> world" where
  "context_clear uid w =
     (case user_context w uid of
        None \<Rightarrow> w
      | Some d \<Rightarrow> w\<lparr>user_context := (user_context w)(uid \<mapsto> deque_clear d)\<rparr>)"

definition cmd_start :: "int \<Rightarrow> world \<Rightarrow> world" where
  "cmd_start uid w = reply_to MSG_START (context_clear uid (ensure_context uid w))"

text \<open>One call of the store's append, as the handlers make it.\<close>

datatype append_call = Push_user pystr | Push_assistant pystr

fun turn_of :: "append_call \<Rightarrow> message" where
  "turn_of (Push_user text) = \<lparr>role = ascii ''user'', content = text\<rparr>"
| "turn_of (Push_assistant text) = \<lparr>role = ascii ''assistant'', content = text\<rparr>"

fun run_append :: "int \<Rightarrow> append_call \<Rightarrow> world \<Rightarrow> world" where
  "run_append uid (Push_user text) w = push_user uid text w"
| "run_append uid (Push_assistant text) w = push_assistant uid text w"

fun run_appends :: "int \<Rightarrow> append_call list \<Rightarrow> world \<Rightarrow> world" where
  "run_appends uid [] w = w"
| "run_appends uid (c # cs) w = run_appends uid cs (run_append uid c w)"

text \<open>
  What \<open>deque(maxlen=24)\<close> guarantees of a stored history: its bound is 24 and it holds
  at most 24 turns.
\<close>

definition context_ok :: "world \<Rightarrow> int \<Rightarrow> bool" where
  "context_ok w uid =
     (case user_context w uid of
        None \<Rightarrow> True
      | Some d \<Rightarrow> maxlen d = 24 \<and> length (items d) \<le> 24)"

definition world0 :: world where
  "world0 = \<lparr>user_context = Map.empty, outbox = [], files = Map.empty, requests = []\<rparr>"

section \<open>Configuration and collaborators\<close>

text \<open>
  The environment variables read at start-up, and whether the import of reportlab
  succeeded (\<open>canvas\<close> is not \<open>None\<close>).
\<close>

record config =
  MEDIA_DIR :: pystr
  WEB_SCRAPE_ENABLED :: bool
  WATERMARK_TEXT :: pystr
  canvas_available :: bool

text \<open>
  What lies outside the repository: \<open>str.lower\<close>; the completion service, which gives
  the content of the first choice or raises; the HTTP request followed by the text
  extraction of the page, which gives the page text or raises; \<open>int(time.time())\<close>;
  and the file system and reportlab, each of which answers a call on a path with the
  exception it raises, if any: \<open>os.makedirs\<close> of a directory that is not the empty
  path, \<open>open(path, "w")\<close>, and the drawing and saving of the PDF.
\<close>

record env =
  lower :: "pystr \<Rightarrow> pystr"
  chat_completion :: "message list \<Rightarrow> nat \<Rightarrow> exn + pystr"
  http_get_text :: "pystr \<Rightarrow> exn + pystr"
  clock :: int
  makedirs :: "pystr \<Rightarrow> exn option"
  open_write :: "pystr \<Rightarrow> exn option"
  canvas_save :: "pystr \<Rightarrow> exn option"

text \<open>\<open>call_openai\<close>: the request is sent, and the content returned is stripped.\<close>

definition call_openai :: "env \<Rightarrow> message list \<Rightarrow> nat \<Rightarrow> world \<Rightarrow> (exn + pystr) \<times> world" where
  "call_openai e messages max_tokens w =
     (let w1 = w\<lparr>requests := requests w @ [(messages, max_tokens)]\<rparr>
      in case chat_completion e messages max_tokens of
           Inl x \<Rightarrow> (Inl x, w1)
         | Inr c \<Rightarrow> (Inr (strip c), w1))"

text \<open>
  \<open>fetch_url_text\<close>: the empty text when fetching is disabled or anything raises,
  otherwise the first 3000 code points of the page text.
\<close>

definition fetch_url_text :: "config \<Rightarrow> env \<Rightarrow> pystr \<Rightarrow> pystr" where
  "fetch_url_text cfg e url =
     (if \<not> WEB_SCRAPE_ENABLED cfg then []
      else case http_get_text e url of
             Inl x \<Rightarrow> []
           | Inr texts \<Rightarrow> take 3000 texts)"

section \<open>The report\<close>

text \<open>\<open>os.path.join\<close> of two components, on POSIX.\<close>

definition path_join :: "pystr \<Rightarrow> pystr \<Rightarrow> pystr" where
  "path_join a b =
     (if startswith b [47] then b
      else if a = [] \<or> last a = 47 then a @ b
      else a @ [47] @ b)"

text \<open>The fixed parts of the plain-text report: its heading and its two labels.\<close>

definition TXT_HEADER :: pystr where
  "TXT_HEADER =
     [66, 193, 79, 32, 67, 193, 79, 32, 71, 73, 193, 77, 32, 272, 7882, 78, 72, 10, 10]"

definition TXT_USER :: pystr where
  "TXT_USER = [78, 103, 432, 7901, 105, 32, 100, 249, 110, 103, 58, 32]"

definition TXT_TITLE :: pystr where
  "TXT_TITLE = [10, 84, 105, 234, 117, 32, 273, 7873, 58, 32]"

text \<open>
  \<open>os.makedirs(path, exist_ok=True)\<close>: the empty path raises \<open>FileNotFoundError\<close>;
  for any other path the file system decides.
\<close>

definition os_makedirs :: "env \<Rightarrow> pystr \<Rightarrow> exn option" where
  "os_makedirs e path = (if path = [] then Some FileNotFoundError else makedirs e path)"

text \<open>
  A file opened with \<open>encoding="utf-8"\<close> encodes each text at the \<open>write\<close> call, and
  the encoder refuses a surrogate code point (U+D800 to U+DFFF), which a Python string
  may hold on its own. \<open>write_all\<close> is a sequence of \<open>f.write\<close> calls inside one
  \<open>with\<close> block: the calls before the first text that cannot be encoded reach the
  file, that call raises \<open>UnicodeEncodeError\<close>, and the block closes the file.
\<close>

definition utf8_encodable :: "pystr \<Rightarrow> bool" where
  "utf8_encodable s = list_all (\<lambda>c. c < 55296 \<or> 57343 < c) s"

fun write_all :: "pystr list \<Rightarrow> pystr \<Rightarrow> exn option \<times> pystr" where
  "write_all [] written = (None, written)"
| "write_all (s # ss) written =
     (if utf8_encodable s then write_all ss (written @ s)
      else (Some UnicodeEncodeError, written))"

text \<open>The first two assignments of \<open>generate_pdf\<close>: the name and the path of the PDF.\<close>

definition report_fpath :: "config \<Rightarrow> env \<Rightarrow> int \<Rightarrow> pystr" where
  "report_fpath cfg e uid =
     (let fname = ascii ''report_'' @ str_int uid @ ascii ''_'' @ str_int (clock e) @ ascii ''.pdf''
      in path_join (MEDIA_DIR cfg) fname)"

text \<open>
  \<open>generate_pdf\<close> returns the path of the file it wrote, or raises. It raises when the
  directory cannot be made, and then writes nothing. With reportlab the file is the PDF
  that the library draws from the user identifier, the title, the content and the
  watermark; its pages are the library's work and are kept abstract, and a save that
  raises is taken to leave no file. Without reportlab the file is opened, which may
  raise, and receives the texts of the four \<open>f.write\<close> calls up to the first that
  raises.
\<close>

definition generate_pdf ::
  "config \<Rightarrow> env \<Rightarrow> int \<Rightarrow> pystr \<Rightarrow> pystr \<Rightarrow> world \<Rightarrow> (exn + pystr) \<times> world" where
  "generate_pdf cfg e uid title body w =
     (case os_makedirs e (MEDIA_DIR cfg) of
        Some x \<Rightarrow> (Inl x, w)
      | None \<Rightarrow>
          (let fpath = report_fpath cfg e uid
           in if canvas_available cfg then
                (case canvas_save e fpath of
                   Some x \<Rightarrow> (Inl x, w)
                 | None \<Rightarrow>
                     (Inr fpath, w\<lparr>files := (files w)(fpath \<mapsto>
                        Pdf_artifact uid title body (WATERMARK_TEXT cfg))\<rparr>))
              else
                (let txt = fpath @ ascii ''.txt''
                 in case open_write e txt of
                      Some x \<Rightarrow> (Inl x, w)
                    | None \<Rightarrow>
                        (let (r, written) =
                               write_all
                                 [TXT_HEADER,
                                  TXT_USER @ str_int uid @ TXT_TITLE @ title @ [10, 10],
                                  body,
                                  [10, 10] @ WATERMARK_TEXT cfg] [];
                             w1 = w\<lparr>files := (files w)(txt \<mapsto> Text_artifact written)\<rparr>
                         in case r of
                              Some x \<Rightarrow> (Inl x, w1)
                            | None \<Rightarrow> (Inr txt, w1)))))"

section \<open>The text handler\<close>

text \<open>The keywords and replies of \<open>handle_text\<close>, in the order of the source.\<close>

definition KW_FETCH :: pystr where
  "KW_FETCH = ascii ''fetch ''"

definition MSG_FETCHING_PRE :: pystr where
  "MSG_FETCHING_PRE =
     [272, 97, 110, 103, 32, 102, 101, 116, 99, 104, 32, 110, 7897, 105, 32, 100, 117, 110,
      103, 32, 116, 7915, 58, 32]"

definition MSG_FETCHING_POST :: pystr where
  "MSG_FETCHING_POST =
     [32, 40, 110, 7871, 117, 32, 99, 104, 7913, 99, 32, 110, 259, 110, 103, 32, 98, 7853,
      116, 41]"

definition MSG_SNIPPET :: pystr where
  "MSG_SNIPPET =
     [84, 114, 237, 99, 104, 32, 120, 117, 7845, 116, 32, 110, 7897, 105, 32, 100, 117, 110,
      103, 32, 40, 114, 250, 116, 32, 103, 7885, 110, 41, 58, 10]"

definition TAG_WEB :: pystr where
  "TAG_WEB = ascii ''[WEB] ''"

text \<open>"Khong lay duoc noi dung. Chuc nang crawl co the tat hoac URL khong cho phep."\<close>

definition MSG_NO_CONTENT :: pystr where
  "MSG_NO_CONTENT =
     [75, 104, 244, 110, 103, 32, 108, 7845, 121, 32, 273, 432, 7907, 99, 32, 110, 7897, 105,
      32, 100, 117, 110, 103, 46, 32, 67, 104, 7913, 99, 32, 110, 259, 110, 103, 32, 99, 114,
      97, 119, 108, 32, 99, 243, 32, 116, 104, 7875, 32, 116, 7855, 116, 32, 104, 111, 7863,
      99, 32, 85, 82, 76, 32, 107, 104, 244, 110, 103, 32, 99, 104, 111, 32, 112, 104, 233,
      112, 46]"

definition KW_TRICH_XUAT :: pystr where
  "KW_TRICH_XUAT = ascii ''trich xuat''"

definition KW_TRICH_XUAT_VI :: pystr where
  "KW_TRICH_XUAT_VI = [116, 114, 237, 99, 104, 32, 120, 117, 7845, 116]"

definition MSG_EXTRACT_START :: pystr where
  "MSG_EXTRACT_START =
     [66, 7855, 116, 32, 273, 7847, 117, 32, 116, 114, 237, 99, 104, 32, 120, 117, 7845, 116,
      32, 80, 68, 70, 32, 40, 110, 7871, 117, 32, 99, 243, 41, 46]"

definition TAG_EXTRACT :: pystr where
  "TAG_EXTRACT =
     [91, 89, 234, 117, 32, 99, 7847, 117, 32, 116, 114, 237, 99, 104, 32, 120, 117, 7845,
      116, 32, 80, 68, 70, 93, 32]"

definition MSG_EXTRACT_FAIL :: pystr where
  "MSG_EXTRACT_FAIL =
     [76, 7895, 105, 32, 107, 104, 105, 32, 116, 114, 237, 99, 104, 32, 120, 117, 7845, 116,
      46]"

text \<open>The report keywords "tao bao cao" and "bao cao", with their Vietnamese marks.\<close>

definition KW_TAO_BAO_CAO :: pystr where
  "KW_TAO_BAO_CAO = [116, 7841, 111, 32, 98, 225, 111, 32, 99, 225, 111]"

definition KW_BAO_CAO :: pystr where
  "KW_BAO_CAO = [98, 225, 111, 32, 99, 225, 111]"

definition MSG_REPORT_START :: pystr where
  "MSG_REPORT_START =
     [272, 97, 110, 103, 32, 116, 7841, 111, 32, 98, 225, 111, 32, 99, 225, 111, 32, 80, 68,
      70, 46, 46, 46]"

definition REPORT_TITLE :: pystr where
  "REPORT_TITLE = [66, 225, 111, 32, 99, 225, 111, 32, 116, 7915, 32, 66, 111, 116]"

definition MSG_REPORT_DONE :: pystr where
  "MSG_REPORT_DONE =
     [66, 225, 111, 32, 99, 225, 111, 32, 116, 7841, 111, 32, 120, 111, 110, 103, 58, 32]"

text \<open>"Loi khi tao bao cao."\<close>

definition MSG_REPORT_FAIL :: pystr where
  "MSG_REPORT_FAIL =
     [76, 7895, 105, 32, 107, 104, 105, 32, 116, 7841, 111, 32, 98, 225, 111, 32, 99, 225,
      111, 46]"

text \<open>"Loi khi goi AI. Thu lai sau."\<close>

definition MSG_AI_FAIL :: pystr where
  "MSG_AI_FAIL =
     [76, 7895, 105, 32, 107, 104, 105, 32, 103, 7885, 105, 32, 65, 73, 46, 32, 84, 104,
      7917, 32, 108, 7841, 105, 32, 115, 97, 117, 46]"

text \<open>
  The body of the first \<open>if\<close>: \<open>text.split(" ", 1)[1]\<close> raises \<open>IndexError\<close> when the
  split gives one part only, before anything is sent.
\<close>

definition handle_fetch :: "config \<Rightarrow> env \<Rightarrow> int \<Rightarrow> pystr \<Rightarrow> world \<Rightarrow> exn option \<times> world" where
  "handle_fetch cfg e uid text w =
     (case split_space1 text of
        _ # arg # _ \<Rightarrow>
          (let url = strip arg;
               w1 = reply_to (MSG_FETCHING_PRE @ url @ MSG_FETCHING_POST) w;
               snippet = fetch_url_text cfg e url
           in if snippet \<noteq> [] then
                (None, push_user uid (TAG_WEB @ snippet)
                         (reply_to (MSG_SNIPPET @ take 800 snippet) w1))
              else (None, reply_to MSG_NO_CONTENT w1))
      | _ \<Rightarrow> (Some IndexError, w))"

text \<open>The body of the second \<open>if\<close>: the extraction request.\<close>

definition handle_extract :: "env \<Rightarrow> int \<Rightarrow> pystr \<Rightarrow> world \<Rightarrow> exn option \<times> world" where
  "handle_extract e uid text w =
     (let w1 = reply_to MSG_EXTRACT_START w;
          w2 = push_user uid (TAG_EXTRACT @ text) w1;
          (msgs, w3) = build_messages uid SYSTEM_PROMPT w2;
          (r, w4) = call_openai e msgs 700 w3
      in case r of
           Inr ans \<Rightarrow> (None, reply_to ans (push_assistant uid ans w4))
         | Inl x \<Rightarrow> (None, reply_to MSG_EXTRACT_FAIL w4))"

text \<open>
  The body of the third \<open>if\<close>: the report request. The \<open>try\<close> block holds the
  completion call, the append of the answer and the report; whichever of them raises,
  the failure reply is sent, so a report that fails comes after the answer was stored.
\<close>

definition handle_report :: "config \<Rightarrow> env \<Rightarrow> int \<Rightarrow> world \<Rightarrow> exn option \<times> world" where
  "handle_report cfg e uid w =
     (let w1 = reply_to MSG_REPORT_START w;
          (msgs, w2) = build_messages uid SYSTEM_PROMPT w1;
          (r, w3) = call_openai e msgs 900 w2
      in case r of
           Inr analysis \<Rightarrow>
             (let w4 = push_assistant uid analysis w3;
                  (res, w5) = generate_pdf cfg e uid REPORT_TITLE analysis w4
              in case res of
                   Inr pdf \<Rightarrow> (None, reply_to (MSG_REPORT_DONE @ pdf) w5)
                 | Inl x \<Rightarrow> (None, reply_to MSG_REPORT_FAIL w5))
         | Inl x \<Rightarrow> (None, reply_to MSG_REPORT_FAIL w3))"

text \<open>The default: the text goes to the completion service.\<close>

definition handle_default :: "env \<Rightarrow> int \<Rightarrow> pystr \<Rightarrow> world \<Rightarrow> exn option \<times> world" where
  "handle_default e uid text w =
     (let w1 = push_user uid text w;
          (msgs, w2) = build_messages uid SYSTEM_PROMPT w1;
          (r, w3) = call_openai e msgs 700 w2
      in case r of
           Inr ans \<Rightarrow> (None, reply_to ans (push_assistant uid ans w3))
         | Inl x \<Rightarrow> (None, reply_to MSG_AI_FAIL w3))"

text \<open>The three tests of \<open>handle_text\<close> on the stripped, lower-cased text.\<close>

definition is_fetch :: "env \<Rightarrow> pystr \<Rightarrow> bool" where
  "is_fetch e text = startswith (lower e text) KW_FETCH"

definition is_extract :: "env \<Rightarrow> pystr \<Rightarrow> bool" where
  "is_extract e text \<longleftrightarrow>
     startswith (lower e text) KW_TRICH_XUAT \<or> startswith (lower e text) KW_TRICH_XUAT_VI"

definition is_report :: "env \<Rightarrow> pystr \<Rightarrow> bool" where
  "is_report e text \<longleftrightarrow>
     startswith (lower e text) KW_TAO_BAO_CAO \<or> contains (lower e text) KW_TAO_BAO_CAO \<or>
     contains (lower e text) KW_BAO_CAO"

text \<open>
  \<open>handle_text\<close>, for a message from user \<open>uid\<close> with text \<open>mtext\<close>. It returns the
  exception that left the handler, if any, and the state.
\<close>

definition handle_text :: "config \<Rightarrow> env \<Rightarrow> int \<Rightarrow> pystr \<Rightarrow> world \<Rightarrow> exn option \<times> world" where
  "handle_text cfg e uid mtext w =
     (let text = strip mtext
      in if is_fetch e text then handle_fetch cfg e uid text w
         else if is_extract e text then handle_extract e uid text w
         else if is_report e text then handle_report cfg e uid w
         else handle_default e uid text w)"

section \<open>The store as objects and references\<close>

text \<open>
  Whether the list that \<open>build_messages\<close> returns shares structure with the stored
  history is a question about objects, so the store is modelled a second time with
  explicit references. An address is an index into the list of allocated objects; a new
  object takes the next index. A turn is a dict object, the history of a user is a
  deque object holding references to its turns, and \<open>user_context\<close> maps a user to
  the address of that deque.
\<close>

datatype obj = Dict_obj message | List_obj "nat list" | Deque_obj nat "nat list"

record heap =
  objs :: "obj list"
  context_refs :: "int \<rightharpoonup> nat"

definition lookup :: "heap \<Rightarrow> nat \<Rightarrow> obj option" where
  "lookup h a = (if a < length (objs h) then Some (objs h ! a) else None)"

definition alloc :: "obj \<Rightarrow> heap \<Rightarrow> nat \<times> heap" where
  "alloc ob h = (length (objs h), h\<lparr>objs := objs h @ [ob]\<rparr>)"

definition ensure_context_h :: "int \<Rightarrow> heap \<Rightarrow> heap" where
  "ensure_context_h uid h =
     (case context_refs h uid of
        None \<Rightarrow>
          (let (a, h1) = alloc (Deque_obj 24 []) h
           in h1\<lparr>context_refs := (context_refs h1)(uid \<mapsto> a)\<rparr>)
      | Some a \<Rightarrow> h)"

text \<open>The references held by the deque of a user.\<close>

definition deque_refs :: "heap \<Rightarrow> int \<Rightarrow> nat list" where
  "deque_refs h uid =
     (case context_refs h uid of
        None \<Rightarrow> []
      | Some a \<Rightarrow> (case lookup h a of Some (Deque_obj n rs) \<Rightarrow> rs | _ \<Rightarrow> []))"

text \<open>
  \<open>push_user\<close> and \<open>push_assistant\<close> on objects: a new dict is allocated and its
  reference appended to the deque of the user.
\<close>

definition push_h :: "int \<Rightarrow> message \<Rightarrow> heap \<Rightarrow> heap" where
  "push_h uid t h =
     (let h1 = ensure_context_h uid h;
          (r, h2) = alloc (Dict_obj t) h1
      in case context_refs h2 uid of
           None \<Rightarrow> h2
         | Some a \<Rightarrow>
             (case lookup h2 a of
                Some (Deque_obj n rs) \<Rightarrow>
                  (let ys = rs @ [r]
                   in h2\<lparr>objs := (objs h2)[a := Deque_obj n (if n < length ys then tl ys else ys)]\<rparr>)
              | _ \<Rightarrow> h2))"

definition push_user_h :: "int \<Rightarrow> pystr \<Rightarrow> heap \<Rightarrow> heap" where
  "push_user_h uid text h = push_h uid \<lparr>role = ascii ''user'', content = text\<rparr> h"

definition push_assistant_h :: "int \<Rightarrow> pystr \<Rightarrow> heap \<Rightarrow> heap" where
  "push_assistant_h uid text h = push_h uid \<lparr>role = ascii ''assistant'', content = text\<rparr> h"

text \<open>
  \<open>build_messages\<close> on objects: the system turn is a new dict, and the value of
  \<open>[system] + list(user_context[uid])\<close> is a new list object holding the reference to
  it followed by the references the deque holds. (The two operands of \<open>+\<close> are
  temporaries and are not kept.) The address of the new list is returned.
\<close>

definition build_messages_h :: "int \<Rightarrow> pystr \<Rightarrow> heap \<Rightarrow> nat \<times> heap" where
  "build_messages_h uid system_prompt h =
     (let h1 = ensure_context_h uid h;
          (s, h2) = alloc (Dict_obj \<lparr>role = ascii ''system'', content = system_prompt\<rparr>) h1
      in alloc (List_obj (s # deque_refs h2 uid)) h2)"

text \<open>
  Any mutation of the sequence object at address \<open>l\<close>, a list or a deque
  (\<open>append\<close>, \<open>pop\<close>, \<open>clear\<close>, item or slice assignment, \<open>sort\<close>, or several
  of them in a row), replaces the references it holds by others: \<open>f\<close> is that
  replacement. Nothing happens to an address that holds no sequence.
\<close>

definition seq_mutate :: "nat \<Rightarrow> (nat list \<Rightarrow> nat list) \<Rightarrow> heap \<Rightarrow> heap" where
  "seq_mutate l f h =
     (case lookup h l of
        Some (List_obj rs) \<Rightarrow> h\<lparr>objs := (objs h)[l := List_obj (f rs)]\<rparr>
      | Some (Deque_obj n rs) \<Rightarrow> h\<lparr>objs := (objs h)[l := Deque_obj n (f rs)]\<rparr>
      | _ \<Rightarrow> h)"

text \<open>
  \<open>d["content"] = text\<close> on the dict at address \<open>r\<close>, and the references a list
  holds, for \<open>msgs[i]\<close>.
\<close>

definition dict_set_content :: "nat \<Rightarrow> pystr \<Rightarrow> heap \<Rightarrow> heap" where
  "dict_set_content r text h =
     (case lookup h r of
        Some (Dict_obj m) \<Rightarrow> h\<lparr>objs := (objs h)[r := Dict_obj (m\<lparr>content := text\<rparr>)]\<rparr>
      | _ \<Rightarrow> h)"

definition list_refs :: "heap \<Rightarrow> nat \<Rightarrow> nat list" where
  "list_refs h l = (case lookup h l of Some (List_obj rs) \<Rightarrow> rs | _ \<Rightarrow> [])"

text \<open>Reading turns through references: \<open>None\<close> where a reference is not to a dict.\<close>

definition turn_at :: "heap \<Rightarrow> nat \<Rightarrow> message option" where
  "turn_at h r = (case lookup h r of Some (Dict_obj m) \<Rightarrow> Some m | _ \<Rightarrow> None)"

definition stored_history :: "heap \<Rightarrow> int \<Rightarrow> message option list" where
  "stored_history h uid = map (turn_at h) (deque_refs h uid)"

definition list_value :: "heap \<Rightarrow> nat \<Rightarrow> message option list option" where
  "list_value h l =
     (case lookup h l of Some (List_obj rs) \<Rightarrow> Some (map (turn_at h) rs) | _ \<Rightarrow> None)"

text \<open>
  A heap is well formed when every user's reference is to an allocated deque and every
  reference in a deque is to an allocated dict. The empty heap is, and the operations
  above keep it so.
\<close>

definition wf_heap :: "heap \<Rightarrow> bool" where
  "wf_heap h \<longleftrightarrow>
     (\<forall>uid a. context_refs h uid = Some a \<longrightarrow>
        (\<exists>n rs. lookup h a = Some (Deque_obj n rs) \<and>
                (\<forall>r \<in> set rs. \<exists>m. lookup h r = Some (Dict_obj m))))"

definition heap0 :: heap where
  "heap0 = \<lparr>objs = [], context_refs = Map.empty\<rparr>"

text \<open>
  The heap represents a store of the first model when it is well formed, no two users
  share a deque, and the deque of each user has the bound and, read through its
  references, the turns that the store gives that user. The empty heap represents the
  empty store, and \<open>ensure_context\<close>, \<open>push_user\<close>, \<open>push_assistant\<close> and
  \<open>build_messages\<close> on objects keep the relation with their counterparts on values.
\<close>

definition heap_rel :: "heap \<Rightarrow> world \<Rightarrow> bool" where
  "heap_rel h w \<longleftrightarrow>
     wf_heap h \<and>
     (\<forall>u v a. context_refs h u = Some a \<and> context_refs h v = Some a \<longrightarrow> u = v) \<and>
     (\<forall>u. case user_context w u of
            None \<Rightarrow> context_refs h u = None
          | Some d \<Rightarrow>
              (\<exists>a rs. context_refs h u = Some a \<and>
                 lookup h a = Some (Deque_obj (maxlen d) rs) \<and>
                 map (turn_at h) rs = map Some (items d)))"

section \<open>Example configurations\<close>

text \<open>
  The default configuration on a host without reportlab, the same with web fetching
  enabled, a completion service that answers " ok ", one that fails, a page of 801
  letters, and a file system that raises nothing.
\<close>

definition cfg_example :: config where
  "cfg_example =
     \<lparr>MEDIA_DIR = ascii ''/tmp/telegram_media'', WEB_SCRAPE_ENABLED = False,
      WATERMARK_TEXT = ascii ''Mr.P 0922372220'', canvas_available = False\<rparr>"

definition cfg_web :: config where
  "cfg_web = cfg_example\<lparr>WEB_SCRAPE_ENABLED := True\<rparr>"

definition env_example :: env where
  "env_example =
     \<lparr>lower = lower_ascii,
      chat_completion = (\<lambda>messages max_tokens. Inr (ascii '' ok '')),
      http_get_text = (\<lambda>url. Inr (replicate 801 97)),
      clock = 1700000000,
      makedirs = (\<lambda>path. None),
      open_write = (\<lambda>path. None),
      canvas_save = (\<lambda>path. None)\<rparr>"

definition env_down :: env where
  "env_down = env_example\<lparr>chat_completion := (\<lambda>messages max_tokens. Inl ServiceError)\<rparr>"

section \<open>Facts about the store\<close>

lemma ensure_context_defined: "user_context (ensure_context uid w) uid \<noteq> None"
  by (simp add: ensure_context_def split: option.splits)

lemma history_ensure_context [simp]: "history (ensure_context uid w) u = history w u"
  by (simp add: history_def ensure_context_def deque_new_def split: option.splits)

lemma context_ok_ensure_context [simp]:
  "context_ok (ensure_context uid w) u = context_ok w u"
  by (simp add: context_ok_def ensure_context_def deque_new_def split: option.splits)

lemma trim_eq_drop:
  "length xs \<le> n \<Longrightarrow>
   (let ys = xs @ [x] in if n < length ys then tl ys else ys) =
     drop (length (xs @ [x]) - n) (xs @ [x])"
  by (cases xs) (auto simp add: Let_def drop_Suc Suc_diff_le)

lemma last_n_append:
  "drop (length (drop (length a - n) a @ r) - n) (drop (length a - n) a @ r) =
   drop (length (a @ r) - n) (a @ r)"
proof (cases "length a \<le> n")
  case True
  then show ?thesis by simp
next
  case False
  then have "length a - n + n = length a" by simp
  then show ?thesis using False by (simp add: add.commute)
qed

lemma history_context_append:
  "context_ok w uid \<Longrightarrow>
   history (context_append uid t (ensure_context uid w)) uid =
     (let ys = history w uid @ [t] in if 24 < length ys then tl ys else ys)"
proof (cases "user_context w uid")
  case None
  then show ?thesis
    by (simp add: history_def context_append_def ensure_context_def deque_append_def
        deque_new_def Let_def)
next
  case (Some d)
  assume "context_ok w uid"
  with Some have "maxlen d = 24" by (simp add: context_ok_def)
  with Some show ?thesis
    by (simp add: history_def context_append_def ensure_context_def deque_append_def Let_def)
qed

lemma context_ok_context_append:
  "context_ok w uid \<Longrightarrow> context_ok (context_append uid t (ensure_context uid w)) uid"
  by (auto simp add: context_append_def ensure_context_def deque_append_def
      deque_new_def context_ok_def Let_def split: option.splits)

lemma history_run_append:
  "context_ok w uid \<Longrightarrow>
   history (run_append uid c w) uid =
     (let ys = history w uid @ [turn_of c] in if 24 < length ys then tl ys else ys)"
  by (cases c) (simp_all add: push_user_def push_assistant_def history_context_append)

lemma context_ok_run_append:
  "context_ok w uid \<Longrightarrow> context_ok (run_append uid c w) uid"
  by (cases c) (simp_all add: push_user_def push_assistant_def context_ok_context_append)

lemma length_history_le: "context_ok w uid \<Longrightarrow> length (history w uid) \<le> 24"
  by (simp add: context_ok_def history_def split: option.splits)

lemma history_run_appends:
  "context_ok w uid \<Longrightarrow>
   history (run_appends uid cs w) uid =
     drop (length (history w uid @ map turn_of cs) - 24) (history w uid @ map turn_of cs)"
proof (induction cs arbitrary: w)
  case Nil
  then show ?case
    using length_history_le [of w uid] by simp
next
  case (Cons c cs)
  let ?w = "run_append uid c w"
  have ok: "context_ok ?w uid"
    using Cons.prems by (rule context_ok_run_append)
  have len: "length (history w uid) \<le> 24"
    using Cons.prems by (rule length_history_le)
  have step: "history ?w uid =
      drop (length (history w uid @ [turn_of c]) - 24) (history w uid @ [turn_of c])"
    using trim_eq_drop [OF len, of "turn_of c"] Cons.prems
    by (simp only: history_run_append)
  have "history (run_appends uid (c # cs) w) uid =
      drop (length (history ?w uid @ map turn_of cs) - 24) (history ?w uid @ map turn_of cs)"
    using Cons.IH [OF ok] by simp
  also have "\<dots> = drop (length (history w uid @ map turn_of (c # cs)) - 24)
      (history w uid @ map turn_of (c # cs))"
    unfolding step
    using last_n_append [of "history w uid @ [turn_of c]" 24 "map turn_of cs"]
    by simp
  finally show ?case .
qed

section \<open>Facts about the handlers\<close>

lemma build_messages_snd: "snd (build_messages uid p w) = ensure_context uid w"
  by (simp add: build_messages_def Let_def)

lemma ensure_context_idem: "ensure_context uid (ensure_context uid w) = ensure_context uid w"
  by (simp add: ensure_context_def split: option.splits)

lemma push_assistant_ensure_context:
  "push_assistant uid t (ensure_context uid w) = push_assistant uid t w"
  by (simp add: push_assistant_def ensure_context_idem)

lemma push_assistant_fields:
  "outbox (push_assistant uid t w) = outbox w"
  "files (push_assistant uid t w) = files w"
  "requests (push_assistant uid t w) = requests w"
  by (simp_all add: push_assistant_def context_append_def ensure_context_def
      split: option.splits)

lemma push_user_fields:
  "outbox (push_user uid t w) = outbox w"
  "files (push_user uid t w) = files w"
  "requests (push_user uid t w) = requests w"
  by (simp_all add: push_user_def context_append_def ensure_context_def
      split: option.splits)

lemma ensure_context_fields:
  "outbox (ensure_context uid w) = outbox w"
  "files (ensure_context uid w) = files w"
  "requests (ensure_context uid w) = requests w"
  by (simp_all add: ensure_context_def split: option.splits)

lemma user_context_push_assistant_cong:
  "user_context w = user_context w' \<Longrightarrow>
   user_context (push_assistant uid t w) = user_context (push_assistant uid t w')"
  by (simp add: push_assistant_def context_append_def ensure_context_def
      split: option.splits)

lemma handle_text_fetch:
  "is_fetch e (strip mtext) \<Longrightarrow>
   handle_text cfg e uid mtext w = handle_fetch cfg e uid (strip mtext) w"
  by (simp add: handle_text_def Let_def)

lemma handle_text_report:
  "\<not> is_fetch e (strip mtext) \<Longrightarrow> \<not> is_extract e (strip mtext) \<Longrightarrow>
   is_report e (strip mtext) \<Longrightarrow>
   handle_text cfg e uid mtext w = handle_report cfg e uid w"
  by (simp add: handle_text_def Let_def)

lemma ensure_context_updates:
  "ensure_context uid (w\<lparr>outbox := ob\<rparr>) = (ensure_context uid w)\<lparr>outbox := ob\<rparr>"
  "ensure_context uid (w\<lparr>files := fs\<rparr>) = (ensure_context uid w)\<lparr>files := fs\<rparr>"
  "ensure_context uid (w\<lparr>requests := rq\<rparr>) = (ensure_context uid w)\<lparr>requests := rq\<rparr>"
  by (simp_all add: ensure_context_def split: option.splits)

lemma context_append_updates:
  "context_append uid t (w\<lparr>outbox := ob\<rparr>) = (context_append uid t w)\<lparr>outbox := ob\<rparr>"
  "context_append uid t (w\<lparr>files := fs\<rparr>) = (context_append uid t w)\<lparr>files := fs\<rparr>"
  "context_append uid t (w\<lparr>requests := rq\<rparr>) = (context_append uid t w)\<lparr>requests := rq\<rparr>"
  by (simp_all add: context_append_def split: option.splits)

lemma push_assistant_updates:
  "push_assistant uid t (w\<lparr>outbox := ob\<rparr>) = (push_assistant uid t w)\<lparr>outbox := ob\<rparr>"
  "push_assistant uid t (w\<lparr>files := fs\<rparr>) = (push_assistant uid t w)\<lparr>files := fs\<rparr>"
  "push_assistant uid t (w\<lparr>requests := rq\<rparr>) = (push_assistant uid t w)\<lparr>requests := rq\<rparr>"
  by (simp_all add: push_assistant_def ensure_context_updates context_append_updates)

lemma push_user_updates:
  "push_user uid t (w\<lparr>outbox := ob\<rparr>) = (push_user uid t w)\<lparr>outbox := ob\<rparr>"
  "push_user uid t (w\<lparr>files := fs\<rparr>) = (push_user uid t w)\<lparr>files := fs\<rparr>"
  "push_user uid t (w\<lparr>requests := rq\<rparr>) = (push_user uid t w)\<lparr>requests := rq\<rparr>"
  by (simp_all add: push_user_def ensure_context_updates context_append_updates)

lemma build_messages_updates:
  "fst (build_messages uid p (w\<lparr>outbox := ob\<rparr>)) = fst (build_messages uid p w)"
  "fst (build_messages uid p (w\<lparr>requests := rq\<rparr>)) = fst (build_messages uid p w)"
  "fst (build_messages uid p (w\<lparr>files := fs\<rparr>)) = fst (build_messages uid p w)"
  by (simp_all add: build_messages_def Let_def ensure_context_updates history_def)

lemmas frame_simps =
  reply_to_def ensure_context_updates push_assistant_updates push_user_updates
  build_messages_updates ensure_context_fields push_assistant_fields push_user_fields
  build_messages_snd

lemma split_space1_has_space:
  "32 \<in> set s \<Longrightarrow>
   split_space1 s = [takeWhile (\<lambda>c. c \<noteq> 32) s, tl (dropWhile (\<lambda>c. c \<noteq> 32) s)]"
proof -
  assume "32 \<in> set s"
  then have "dropWhile (\<lambda>c. c \<noteq> 32) s \<noteq> []"
    by auto
  then show ?thesis
    by (cases "dropWhile (\<lambda>c. c \<noteq> 32) s") (simp_all add: split_space1_def)
qed

lemma handle_fetch_frame:
  "requests (snd (handle_fetch cfg e uid text w)) = requests w \<and>
   files (snd (handle_fetch cfg e uid text w)) = files w"
  by (simp add: handle_fetch_def Let_def frame_simps split: list.splits)

lemma call_openai_Inl:
  "chat_completion e msgs n = Inl x \<Longrightarrow>
   call_openai e msgs n w = (Inl x, w\<lparr>requests := requests w @ [(msgs, n)]\<rparr>)"
  by (simp add: call_openai_def Let_def)

lemma call_openai_Inr:
  "chat_completion e msgs n = Inr c \<Longrightarrow>
   call_openai e msgs n w = (Inr (strip c), w\<lparr>requests := requests w @ [(msgs, n)]\<rparr>)"
  by (simp add: call_openai_def Let_def)

lemma handle_report_failure:
  assumes "chat_completion e (fst (build_messages uid SYSTEM_PROMPT w)) 900 = Inl x"
  shows "handle_report cfg e uid w =
     (None, (ensure_context uid w)
        \<lparr>outbox := outbox w @ [MSG_REPORT_START, MSG_REPORT_FAIL],
         requests := requests w @ [(fst (build_messages uid SYSTEM_PROMPT w), 900)]\<rparr>)"
  by (simp add: handle_report_def frame_simps call_openai_Inl [OF assms] Let_def case_prod_beta)

lemma generate_pdf_frame:
  "user_context (snd (generate_pdf cfg e uid title body w)) = user_context w"
  "outbox (snd (generate_pdf cfg e uid title body w)) = outbox w"
  "requests (snd (generate_pdf cfg e uid title body w)) = requests w"
  by (simp_all add: generate_pdf_def Let_def case_prod_beta split: option.splits)

lemma handle_report_success:
  assumes "chat_completion e (fst (build_messages uid SYSTEM_PROMPT w)) 900 = Inr c"
  shows "user_context (snd (handle_report cfg e uid w)) =
           user_context (push_assistant uid (strip c) w)"
  by (simp add: handle_report_def frame_simps call_openai_Inr [OF assms] Let_def
      case_prod_beta generate_pdf_frame push_assistant_ensure_context split: sum.splits)

lemma handle_default_success:
  assumes "chat_completion e (fst (build_messages uid SYSTEM_PROMPT (push_user uid text w))) 700 = Inr c"
  shows "user_context (snd (handle_default e uid text w)) =
           user_context (push_assistant uid (strip c) (push_user uid text w))"
  by (simp add: handle_default_def frame_simps call_openai_Inr [OF assms] Let_def
      case_prod_beta push_assistant_ensure_context)

lemma split_space1_no_space: "32 \<notin> set s \<Longrightarrow> split_space1 s = [s]"
proof -
  assume "32 \<notin> set s"
  then have "dropWhile (\<lambda>c. c \<noteq> 32) s = []"
    by auto
  then show ?thesis
    unfolding split_space1_def by (simp only: list.case)
qed

lemmas eval_simps =
  handle_text_def handle_fetch_def handle_default_def handle_report_def handle_extract_def
  is_fetch_def is_extract_def is_report_def
  strip_def py_isspace_def lower_ascii_def ascii_def split_space1_def
  KW_FETCH_def KW_TRICH_XUAT_def KW_TRICH_XUAT_VI_def KW_TAO_BAO_CAO_def KW_BAO_CAO_def
  TAG_WEB_def
  cfg_example_def cfg_web_def env_example_def env_down_def world0_def
  build_messages_def call_openai_def fetch_url_text_def
  push_user_def push_assistant_def context_append_def ensure_context_def
  deque_new_def deque_append_def reply_to_def history_def Let_def

text \<open>The model run on the default configuration: decimal numbers, the path of the
  report, and a whole report request.\<close>

lemma str_int_examples:
  "str_int 0 = ascii ''0''"
  "str_int 7 = ascii ''7''"
  "str_int (- 12) = ascii ''-12''"
  "str_int 1700000000 = ascii ''1700000000''"
  by (simp_all add: str_int_def str_nat.simps ascii_def)

lemmas report_eval_simps =
  generate_pdf_def os_makedirs_def report_fpath_def path_join_def utf8_encodable_def
  str_int_def str_nat.simps TXT_HEADER_def TXT_USER_def TXT_TITLE_def REPORT_TITLE_def

lemma path_example:
  "fst (generate_pdf cfg_example env_example 7 REPORT_TITLE (ascii ''ok'') world0) =
     Inr (ascii ''/tmp/telegram_media/report_7_1700000000.pdf.txt'')"
  by (simp add: report_eval_simps cfg_example_def env_example_def ascii_def Let_def)

lemma report_example:
  "outbox (snd (handle_text cfg_example env_example 7 KW_TAO_BAO_CAO world0)) =
     [MSG_REPORT_START,
      MSG_REPORT_DONE @ ascii ''/tmp/telegram_media/report_7_1700000000.pdf.txt''] \<and>
   files (snd (handle_text cfg_example env_example 7 KW_TAO_BAO_CAO world0))
     (ascii ''/tmp/telegram_media/report_7_1700000000.pdf.txt'') =
     Some (Text_artifact (TXT_HEADER @ TXT_USER @ ascii ''7'' @ TXT_TITLE @ REPORT_TITLE @
       [10, 10] @ ascii ''ok'' @ [10, 10] @ ascii ''Mr.P 0922372220'')) \<and>
   history (snd (handle_text cfg_example env_example 7 KW_TAO_BAO_CAO world0)) 7 =
     [\<lparr>role = ascii ''assistant'', content = ascii ''ok''\<rparr>]"
  by (simp add: eval_simps report_eval_simps)

text \<open>A report that fails after the answer was stored.\<close>

lemma report_after_answer_example:
  "outbox (snd (handle_text (cfg_example\<lparr>MEDIA_DIR := []\<rparr>) env_example 7 KW_TAO_BAO_CAO world0)) =
     [MSG_REPORT_START, MSG_REPORT_FAIL] \<and>
   files (snd (handle_text (cfg_example\<lparr>MEDIA_DIR := []\<rparr>) env_example 7 KW_TAO_BAO_CAO world0)) =
     files world0 \<and>
   history (snd (handle_text (cfg_example\<lparr>MEDIA_DIR := []\<rparr>) env_example 7 KW_TAO_BAO_CAO world0)) 7 =
     [\<lparr>role = ascii ''assistant'', content = ascii ''ok''\<rparr>]"
  by (simp add: eval_simps report_eval_simps)







lemma history_cong: "user_context w = user_context w' \<Longrightarrow> history w u = history w' u"
  by (simp add: history_def)

lemma history_updates:
  "history (w\<lparr>outbox := ob\<rparr>) u = history w u"
  "history (w\<lparr>files := fs\<rparr>) u = history w u"
  "history (w\<lparr>requests := rq\<rparr>) u = history w u"
  by (simp_all add: history_def)

lemma history_push_assistant:
  "context_ok w uid \<Longrightarrow>
   history (push_assistant uid t w) uid =
     (let ys = history w uid @ [\<lparr>role = ascii ''assistant'', content = t\<rparr>]
      in if 24 < length ys then tl ys else ys)"
  unfolding push_assistant_def by (rule history_context_append)

lemma handle_text_default:
  "\<not> is_fetch e (strip mtext) \<Longrightarrow> \<not> is_extract e (strip mtext) \<Longrightarrow>
   \<not> is_report e (strip mtext) \<Longrightarrow>
   handle_text cfg e uid mtext w = handle_default e uid (strip mtext) w"
  by (simp add: handle_text_def Let_def)





lemma length_fetch_url_text: "length (fetch_url_text cfg e url) \<le> 3000"
  by (simp add: fetch_url_text_def split: sum.splits)

section \<open>Facts about objects and references\<close>

lemma lookup_alloc:
  "lookup (snd (alloc ob h)) a = (if a = length (objs h) then Some ob else lookup h a)"
  by (simp add: lookup_def alloc_def nth_append)

lemma fst_alloc: "fst (alloc ob h) = length (objs h)"
  by (simp add: alloc_def)

lemma context_refs_alloc: "context_refs (snd (alloc ob h)) = context_refs h"
  by (simp add: alloc_def)

lemma lookup_fresh: "lookup h (length (objs h)) = None"
  by (simp add: lookup_def)

lemma lookup_context_refs_update:
  "lookup (h\<lparr>context_refs := m\<rparr>) a = lookup h a"
  by (simp add: lookup_def)

lemma wf_heap0: "wf_heap heap0"
  by (simp add: wf_heap_def heap0_def)

lemma wf_heap_alloc:
  assumes "wf_heap h"
  shows "wf_heap (snd (alloc ob h))"
  unfolding wf_heap_def
proof (intro allI impI)
  fix uid a
  assume "context_refs (snd (alloc ob h)) uid = Some a"
  then have "context_refs h uid = Some a"
    by (simp add: context_refs_alloc)
  with assms obtain n rs where d: "lookup h a = Some (Deque_obj n rs)"
    and rs: "\<forall>r \<in> set rs. \<exists>m. lookup h r = Some (Dict_obj m)"
    unfolding wf_heap_def by blast
  from d have "a \<noteq> length (objs h)"
    using lookup_fresh [of h] by auto
  with d have "lookup (snd (alloc ob h)) a = Some (Deque_obj n rs)"
    by (simp add: lookup_alloc)
  moreover have "\<forall>r \<in> set rs. \<exists>m. lookup (snd (alloc ob h)) r = Some (Dict_obj m)"
  proof
    fix r assume "r \<in> set rs"
    with rs obtain m where m: "lookup h r = Some (Dict_obj m)" by blast
    then have "r \<noteq> length (objs h)"
      using lookup_fresh [of h] by auto
    with m show "\<exists>m. lookup (snd (alloc ob h)) r = Some (Dict_obj m)"
      by (simp add: lookup_alloc)
  qed
  ultimately show "\<exists>n rs. lookup (snd (alloc ob h)) a = Some (Deque_obj n rs) \<and>
      (\<forall>r \<in> set rs. \<exists>m. lookup (snd (alloc ob h)) r = Some (Dict_obj m))"
    by blast
qed

lemma ensure_context_h_alt:
  "ensure_context_h uid h =
     (case context_refs h uid of
        None \<Rightarrow> (snd (alloc (Deque_obj 24 []) h))\<lparr>context_refs := (context_refs h)(uid \<mapsto> length (objs h))\<rparr>
      | Some a \<Rightarrow> h)"
  by (simp add: ensure_context_h_def alloc_def split: option.splits)

lemma wf_heap_ensure_context_h:
  assumes "wf_heap h"
  shows "wf_heap (ensure_context_h uid h)"
proof (cases "context_refs h uid")
  case (Some a)
  then show ?thesis using assms by (simp add: ensure_context_h_alt)
next
  case None
  let ?h1 = "snd (alloc (Deque_obj 24 []) h)"
  have wf1: "wf_heap ?h1" using assms by (rule wf_heap_alloc)
  have new: "lookup ?h1 (length (objs h)) = Some (Deque_obj 24 [])"
    by (simp add: lookup_alloc)
  show ?thesis
    using wf1 new None
    by (auto simp add: ensure_context_h_alt wf_heap_def lookup_context_refs_update
        context_refs_alloc)
qed


lemma wf_heap_deque:
  assumes "wf_heap h" and "context_refs h u = Some a"
  shows "\<exists>n. lookup h a = Some (Deque_obj n (deque_refs h u))"
proof -
  from assms obtain n rs where "lookup h a = Some (Deque_obj n rs)"
    unfolding wf_heap_def by blast
  then show ?thesis
    using assms(2) by (simp add: deque_refs_def)
qed

lemma wf_heap_dict:
  assumes "wf_heap h" and "r \<in> set (deque_refs h u)"
  shows "\<exists>m. lookup h r = Some (Dict_obj m)"
proof (cases "context_refs h u")
  case None
  with assms(2) show ?thesis by (simp add: deque_refs_def)
next
  case (Some a)
  with assms(1) obtain n rs where d: "lookup h a = Some (Deque_obj n rs)"
    and rs: "\<forall>r \<in> set rs. \<exists>m. lookup h r = Some (Dict_obj m)"
    unfolding wf_heap_def by blast
  from d Some have "deque_refs h u = rs"
    by (simp add: deque_refs_def)
  with assms(2) rs show ?thesis by blast
qed

lemma lookup_alloc_old: "lookup h a = Some ob' \<Longrightarrow> lookup (snd (alloc ob h)) a = Some ob'"
  using lookup_fresh [of h] by (auto simp add: lookup_alloc)

lemma deque_refs_alloc:
  assumes "wf_heap h"
  shows "deque_refs (snd (alloc ob h)) u = deque_refs h u"
proof (cases "context_refs h u")
  case None
  then show ?thesis by (simp add: deque_refs_def context_refs_alloc)
next
  case (Some a)
  from wf_heap_deque [OF assms Some] obtain n
    where "lookup h a = Some (Deque_obj n (deque_refs h u))" by blast
  then have "lookup (snd (alloc ob h)) a = Some (Deque_obj n (deque_refs h u))"
    by (rule lookup_alloc_old)
  then show ?thesis
    using Some by (simp add: deque_refs_def [of "snd (alloc ob h)"] context_refs_alloc)
qed

lemma stored_history_alloc:
  assumes "wf_heap h"
  shows "stored_history (snd (alloc ob h)) u = stored_history h u"
proof -
  have "map (turn_at (snd (alloc ob h))) (deque_refs h u) = map (turn_at h) (deque_refs h u)"
  proof (rule map_cong [OF refl])
    fix r assume "r \<in> set (deque_refs h u)"
    with assms obtain m where m: "lookup h r = Some (Dict_obj m)"
      using wf_heap_dict by blast
    then have "lookup (snd (alloc ob h)) r = Some (Dict_obj m)"
      by (rule lookup_alloc_old)
    with m show "turn_at (snd (alloc ob h)) r = turn_at h r"
      by (simp add: turn_at_def)
  qed
  then show ?thesis
    by (simp add: stored_history_def deque_refs_alloc [OF assms])
qed

lemma turn_at_context_refs_update: "turn_at (h\<lparr>context_refs := m\<rparr>) = turn_at h"
  by (rule ext) (simp add: turn_at_def lookup_def)

lemma stored_history_context_refs_other:
  "u \<noteq> uid \<Longrightarrow>
   stored_history (h\<lparr>context_refs := (context_refs h)(uid \<mapsto> a)\<rparr>) u = stored_history h u"
  by (simp add: stored_history_def deque_refs_def turn_at_context_refs_update
      lookup_context_refs_update cong: option.case_cong)

lemma stored_history_ensure_context_h:
  assumes "wf_heap h"
  shows "stored_history (ensure_context_h uid h) u = stored_history h u"
proof (cases "context_refs h uid")
  case (Some a)
  then show ?thesis by (simp add: ensure_context_h_alt)
next
  case None
  show ?thesis
  proof (cases "u = uid")
    case True
    then show ?thesis
      using None
      by (simp add: ensure_context_h_alt stored_history_def deque_refs_def
          lookup_context_refs_update lookup_alloc)
  next
    case False
    have "stored_history ((snd (alloc (Deque_obj 24 []) h))
        \<lparr>context_refs := (context_refs (snd (alloc (Deque_obj 24 []) h)))
           (uid \<mapsto> length (objs h))\<rparr>) u =
        stored_history (snd (alloc (Deque_obj 24 []) h)) u"
      using False by (rule stored_history_context_refs_other)
    then show ?thesis
      using None
      by (simp add: ensure_context_h_alt context_refs_alloc stored_history_alloc [OF assms])
  qed
qed

lemma context_refs_seq_mutate: "context_refs (seq_mutate l f h) = context_refs h"
  by (simp add: seq_mutate_def split: option.splits obj.splits)

lemma lookup_seq_mutate_other: "a \<noteq> l \<Longrightarrow> lookup (seq_mutate l f h) a = lookup h a"
  by (simp add: seq_mutate_def lookup_def split: option.splits obj.splits)

lemma lookup_seq_mutate_dict:
  "lookup h a = Some (Dict_obj m) \<Longrightarrow> lookup (seq_mutate l f h) a = Some (Dict_obj m)"
  by (cases "a = l") (simp_all add: lookup_seq_mutate_other, simp add: seq_mutate_def)

lemma stored_history_seq_mutate:
  assumes "wf_heap h" and "lookup h l = Some (List_obj xs)"
  shows "stored_history (seq_mutate l f h) u = stored_history h u"
proof -
  have refs: "deque_refs (seq_mutate l f h) u = deque_refs h u"
  proof (cases "context_refs h u")
    case None
    then show ?thesis by (simp add: deque_refs_def context_refs_seq_mutate)
  next
    case (Some a)
    from wf_heap_deque [OF assms(1) Some] obtain n
      where d: "lookup h a = Some (Deque_obj n (deque_refs h u))" by blast
    with assms(2) have "a \<noteq> l" by auto
    then have "lookup (seq_mutate l f h) a = lookup h a"
      by (rule lookup_seq_mutate_other)
    then show ?thesis
      using Some by (simp add: deque_refs_def context_refs_seq_mutate)
  qed
  have "map (turn_at (seq_mutate l f h)) (deque_refs h u) = map (turn_at h) (deque_refs h u)"
  proof (rule map_cong [OF refl])
    fix r assume "r \<in> set (deque_refs h u)"
    with assms(1) obtain m where m: "lookup h r = Some (Dict_obj m)"
      using wf_heap_dict by blast
    then have "lookup (seq_mutate l f h) r = Some (Dict_obj m)"
      by (rule lookup_seq_mutate_dict)
    with m show "turn_at (seq_mutate l f h) r = turn_at h r"
      by (simp add: turn_at_def)
  qed
  then show ?thesis
    by (simp add: stored_history_def refs)
qed

lemma build_messages_h_alt:
  "build_messages_h uid p h =
     alloc (List_obj (length (objs (ensure_context_h uid h)) #
              deque_refs (snd (alloc (Dict_obj \<lparr>role = ascii ''system'', content = p\<rparr>)
                 (ensure_context_h uid h))) uid))
       (snd (alloc (Dict_obj \<lparr>role = ascii ''system'', content = p\<rparr>) (ensure_context_h uid h)))"
  by (simp add: build_messages_h_def Let_def case_prod_beta fst_alloc)

lemma in_set_tl: "x \<in> set (tl xs) \<Longrightarrow> x \<in> set xs"
  by (cases xs) simp_all

lemma lookup_objs_update:
  "lookup (h\<lparr>objs := (objs h)[a := ob]\<rparr>) b =
     (if b = a \<and> a < length (objs h) then Some ob else lookup h b)"
  by (simp add: lookup_def)

lemma context_refs_ensure_context_h: "context_refs (ensure_context_h uid h) uid \<noteq> None"
  by (simp add: ensure_context_h_alt split: option.splits)

lemma wf_heap_push_h:
  assumes "wf_heap h"
  shows "wf_heap (push_h uid t h)"
proof -
  let ?h1 = "ensure_context_h uid h"
  let ?h2 = "snd (alloc (Dict_obj t) ?h1)"
  let ?r = "length (objs ?h1)"
  have wf2: "wf_heap ?h2"
    using assms by (intro wf_heap_alloc wf_heap_ensure_context_h)
  obtain a where a: "context_refs ?h2 uid = Some a"
    using context_refs_ensure_context_h [of uid h] by (auto simp add: context_refs_alloc)
  from wf2 a obtain n rs where d: "lookup ?h2 a = Some (Deque_obj n rs)"
    and rs: "\<forall>r \<in> set rs. \<exists>m. lookup ?h2 r = Some (Dict_obj m)"
    unfolding wf_heap_def by blast
  let ?ys = "if n < length (rs @ [?r]) then tl (rs @ [?r]) else rs @ [?r]"
  let ?h3 = "?h2\<lparr>objs := (objs ?h2)[a := Deque_obj n ?ys]\<rparr>"
  have res: "push_h uid t h = ?h3"
    using a d by (simp add: push_h_def Let_def case_prod_beta fst_alloc)
  have new: "lookup ?h2 ?r = Some (Dict_obj t)"
    by (simp add: lookup_alloc)
  have a_lt: "a < length (objs ?h2)"
    using d by (simp add: lookup_def split: if_splits)
  have dict_kept: "lookup ?h3 r = Some (Dict_obj m)" if "lookup ?h2 r = Some (Dict_obj m)" for r m
  proof -
    from that d have "r \<noteq> a" by auto
    with that show ?thesis by (simp add: lookup_objs_update)
  qed
  have ys: "\<forall>r \<in> set ?ys. \<exists>m. lookup ?h2 r = Some (Dict_obj m)"
  proof
    fix r assume "r \<in> set ?ys"
    then have "r \<in> set (rs @ [?r])"
      by (auto split: if_splits dest: in_set_tl)
    with rs new show "\<exists>m. lookup ?h2 r = Some (Dict_obj m)" by auto
  qed
  have "wf_heap ?h3"
    unfolding wf_heap_def
  proof (intro allI impI)
    fix u b
    assume "context_refs ?h3 u = Some b"
    then have b: "context_refs ?h2 u = Some b" by simp
    show "\<exists>k xs. lookup ?h3 b = Some (Deque_obj k xs) \<and>
        (\<forall>r \<in> set xs. \<exists>m. lookup ?h3 r = Some (Dict_obj m))"
    proof (cases "b = a")
      case True
      then have "lookup ?h3 b = Some (Deque_obj n ?ys)"
        using a_lt by (simp add: lookup_objs_update)
      moreover have "\<forall>r \<in> set ?ys. \<exists>m. lookup ?h3 r = Some (Dict_obj m)"
        using ys dict_kept by blast
      ultimately show ?thesis by blast
    next
      case False
      from wf2 b obtain k xs where k: "lookup ?h2 b = Some (Deque_obj k xs)"
        and xs: "\<forall>r \<in> set xs. \<exists>m. lookup ?h2 r = Some (Dict_obj m)"
        unfolding wf_heap_def by blast
      from False k have "lookup ?h3 b = Some (Deque_obj k xs)"
        by (simp add: lookup_objs_update)
      moreover have "\<forall>r \<in> set xs. \<exists>m. lookup ?h3 r = Some (Dict_obj m)"
        using xs dict_kept by blast
      ultimately show ?thesis by blast
    qed
  qed
  then show ?thesis
    by (simp only: res)
qed

lemmas heap_eval_simps =
  push_user_h_def push_h_def ensure_context_h_def alloc_def lookup_def heap0_def
  deque_refs_def stored_history_def turn_at_def seq_mutate_def build_messages_h_def
  list_value_def Let_def

lemma stored_history_example:
  "stored_history (push_user_h 7 (ascii ''hi'') heap0) 7 =
     [Some \<lparr>role = ascii ''user'', content = ascii ''hi''\<rparr>]"
  by (simp add: heap_eval_simps)

lemma seq_mutate_deque_example:
  "stored_history (seq_mutate 0 (\<lambda>rs. []) (push_user_h 7 (ascii ''hi'') heap0)) 7 = []"
  by (simp add: heap_eval_simps)

lemma build_messages_h_facts:
  assumes "wf_heap h"
  shows "wf_heap (snd (build_messages_h uid p h))"
    and "\<exists>xs. lookup (snd (build_messages_h uid p h)) (fst (build_messages_h uid p h)) =
           Some (List_obj xs)"
    and "list_value (snd (build_messages_h uid p h)) (fst (build_messages_h uid p h)) =
           Some (Some \<lparr>role = ascii ''system'', content = p\<rparr> #
                 stored_history (snd (build_messages_h uid p h)) uid)"
    and "stored_history (snd (build_messages_h uid p h)) u = stored_history h u"
    and "context_refs (snd (build_messages_h uid p h)) = context_refs (ensure_context_h uid h)"
    and "list_refs (snd (build_messages_h uid p h)) (fst (build_messages_h uid p h)) =
           length (objs (ensure_context_h uid h)) #
           deque_refs (snd (build_messages_h uid p h)) uid"
proof -
  let ?sys = "Dict_obj \<lparr>role = ascii ''system'', content = p\<rparr>"
  let ?h1 = "ensure_context_h uid h"
  let ?h2 = "snd (alloc ?sys ?h1)"
  let ?s = "length (objs ?h1)"
  let ?refs = "deque_refs ?h2 uid"
  let ?h3 = "snd (alloc (List_obj (?s # ?refs)) ?h2)"
  let ?l = "length (objs ?h2)"
  have res: "build_messages_h uid p h = (?l, ?h3)"
    by (simp add: build_messages_h_alt alloc_def)
  have wf1: "wf_heap ?h1" using assms by (rule wf_heap_ensure_context_h)
  have wf2: "wf_heap ?h2" using wf1 by (rule wf_heap_alloc)
  have wf3: "wf_heap ?h3" using wf2 by (rule wf_heap_alloc)
  have at_l: "lookup ?h3 ?l = Some (List_obj (?s # ?refs))"
    by (simp add: lookup_alloc)
  have "lookup ?h2 ?s = Some ?sys"
    by (simp add: lookup_alloc)
  then have "lookup ?h3 ?s = Some ?sys"
    by (rule lookup_alloc_old)
  then have sys: "turn_at ?h3 ?s = Some \<lparr>role = ascii ''system'', content = p\<rparr>"
    by (simp add: turn_at_def)
  have refs3: "deque_refs ?h3 uid = ?refs"
    using wf2 by (rule deque_refs_alloc)
  show "wf_heap (snd (build_messages_h uid p h))"
    unfolding res using wf3 by simp
  show "\<exists>xs. lookup (snd (build_messages_h uid p h)) (fst (build_messages_h uid p h)) =
      Some (List_obj xs)"
    unfolding res using at_l by simp
  show "list_value (snd (build_messages_h uid p h)) (fst (build_messages_h uid p h)) =
      Some (Some \<lparr>role = ascii ''system'', content = p\<rparr> #
            stored_history (snd (build_messages_h uid p h)) uid)"
    unfolding res using at_l sys by (simp add: list_value_def stored_history_def refs3)
  show "stored_history (snd (build_messages_h uid p h)) u = stored_history h u"
    unfolding res
    by (simp add: stored_history_alloc [OF wf2] stored_history_alloc [OF wf1]
        stored_history_ensure_context_h [OF assms])
  show "context_refs (snd (build_messages_h uid p h)) = context_refs (ensure_context_h uid h)"
    unfolding res by (simp add: context_refs_alloc)
  show "list_refs (snd (build_messages_h uid p h)) (fst (build_messages_h uid p h)) =
      length (objs (ensure_context_h uid h)) # deque_refs (snd (build_messages_h uid p h)) uid"
    unfolding res using at_l by (simp add: list_refs_def refs3)
qed

text \<open>
  The two models agree on \<open>build_messages\<close>: where the deque of the user holds the
  turns of the history, the list returned holds the messages that the function on
  values returns.
\<close>

lemma build_messages_h_refines:
  assumes "wf_heap h" and "stored_history h uid = map Some (history w uid)"
  shows "list_value (snd (build_messages_h uid p h)) (fst (build_messages_h uid p h)) =
           Some (map Some (fst (build_messages uid p w)))"
  using build_messages_h_facts(3,4) [OF assms(1), of uid p] assms(2)
  by (simp add: build_messages_def Let_def)

section \<open>The two models of the store agree\<close>

lemma heap_rel0: "heap_rel heap0 world0"
  by (simp add: heap_rel_def wf_heap0) (simp add: heap0_def world0_def)

lemma heap_relD:
  assumes "heap_rel h w"
  shows "wf_heap h"
    and "context_refs h u = Some a \<Longrightarrow> context_refs h v = Some a \<Longrightarrow> u = v"
    and "user_context w u = None \<Longrightarrow> context_refs h u = None"
    and "user_context w u = Some d \<Longrightarrow>
           \<exists>a rs. context_refs h u = Some a \<and> lookup h a = Some (Deque_obj (maxlen d) rs) \<and>
             map (turn_at h) rs = map Some (items d)"
proof -
  show "wf_heap h" using assms by (simp add: heap_rel_def)
  show "context_refs h u = Some a \<Longrightarrow> context_refs h v = Some a \<Longrightarrow> u = v"
    using assms unfolding heap_rel_def by blast
  have all: "\<forall>u. case user_context w u of
            None \<Rightarrow> context_refs h u = None
          | Some d \<Rightarrow>
              (\<exists>a rs. context_refs h u = Some a \<and>
                 lookup h a = Some (Deque_obj (maxlen d) rs) \<and>
                 map (turn_at h) rs = map Some (items d))"
    using assms unfolding heap_rel_def by blast
  show "user_context w u = None \<Longrightarrow> context_refs h u = None"
    using all [rule_format, of u] by simp
  show "user_context w u = Some d \<Longrightarrow>
           \<exists>a rs. context_refs h u = Some a \<and> lookup h a = Some (Deque_obj (maxlen d) rs) \<and>
             map (turn_at h) rs = map Some (items d)"
    using all [rule_format, of u] by simp
qed

lemma heap_rel_history:
  assumes "heap_rel h w"
  shows "stored_history h u = map Some (history w u)"
proof (cases "user_context w u")
  case None
  then show ?thesis
    using heap_relD(3) [OF assms None]
    by (simp add: stored_history_def deque_refs_def history_def)
next
  case (Some d)
  from heap_relD(4) [OF assms Some] obtain a rs
    where "context_refs h u = Some a" "lookup h a = Some (Deque_obj (maxlen d) rs)"
      "map (turn_at h) rs = map Some (items d)" by blast
  then show ?thesis
    using Some by (simp add: stored_history_def deque_refs_def history_def)
qed


lemma turn_at_SomeD: "turn_at h r = Some m \<Longrightarrow> lookup h r = Some (Dict_obj m)"
  by (simp add: turn_at_def split: option.splits obj.splits)

lemma turn_at_alloc: "turn_at h r = Some m \<Longrightarrow> turn_at (snd (alloc ob h)) r = Some m"
  using lookup_alloc_old [of h r "Dict_obj m" ob] by (simp add: turn_at_def turn_at_SomeD)

lemma map_turn_at_alloc:
  assumes "map (turn_at h) rs = map Some ms"
  shows "map (turn_at (snd (alloc ob h))) rs = map Some ms"
  using assms
proof (induction rs arbitrary: ms)
  case Nil
  then show ?case by simp
next
  case (Cons r rs)
  then obtain m ms' where ms: "ms = m # ms'" by (cases ms) auto
  with Cons.prems have "turn_at h r = Some m" and "map (turn_at h) rs = map Some ms'"
    by simp_all
  then show ?case
    using Cons.IH [of ms'] ms by (simp add: turn_at_alloc)
qed

lemma turn_at_deque_update:
  "lookup h a = Some (Deque_obj n rs) \<Longrightarrow>
   turn_at (h\<lparr>objs := (objs h)[a := Deque_obj k xs]\<rparr>) r = turn_at h r"
  by (cases "r = a") (simp_all add: turn_at_def lookup_objs_update lookup_def)

lemma lookup_lt: "lookup h a = Some ob \<Longrightarrow> a < length (objs h)"
  by (simp add: lookup_def split: if_splits)

lemma heap_rel_alloc:
  assumes "heap_rel h w"
  shows "heap_rel (snd (alloc ob h)) w"
  unfolding heap_rel_def
proof (intro conjI allI impI)
  show "wf_heap (snd (alloc ob h))"
    using heap_relD(1) [OF assms] by (rule wf_heap_alloc)
next
  fix u v a
  assume "context_refs (snd (alloc ob h)) u = Some a \<and> context_refs (snd (alloc ob h)) v = Some a"
  then show "u = v"
    using heap_relD(2) [OF assms, of u a v] by (simp add: context_refs_alloc)
next
  fix u
  show "case user_context w u of
          None \<Rightarrow> context_refs (snd (alloc ob h)) u = None
        | Some d \<Rightarrow>
            \<exists>a rs. context_refs (snd (alloc ob h)) u = Some a \<and>
              lookup (snd (alloc ob h)) a = Some (Deque_obj (maxlen d) rs) \<and>
              map (turn_at (snd (alloc ob h))) rs = map Some (items d)"
  proof (cases "user_context w u")
    case None
    then show ?thesis
      using heap_relD(3) [OF assms None] by (simp add: context_refs_alloc)
  next
    case (Some d)
    from heap_relD(4) [OF assms Some] obtain a rs
      where a: "context_refs h u = Some a"
        and d: "lookup h a = Some (Deque_obj (maxlen d) rs)"
        and m: "map (turn_at h) rs = map Some (items d)" by blast
    have "lookup (snd (alloc ob h)) a = Some (Deque_obj (maxlen d) rs)"
      using d by (rule lookup_alloc_old)
    moreover have "map (turn_at (snd (alloc ob h))) rs = map Some (items d)"
      using m by (rule map_turn_at_alloc)
    ultimately show ?thesis
      using Some a by (auto simp add: context_refs_alloc)
  qed
qed

lemma heap_rel_ensure_context:
  assumes "heap_rel h w"
  shows "heap_rel (ensure_context_h uid h) (ensure_context uid w)"
proof (cases "user_context w uid")
  case (Some d)
  from heap_relD(4) [OF assms Some] obtain a where "context_refs h uid = Some a" by blast
  then show ?thesis
    using assms Some by (simp add: ensure_context_h_alt ensure_context_def)
next
  case None
  have none: "context_refs h uid = None"
    using heap_relD(3) [OF assms None] .
  let ?h1 = "snd (alloc (Deque_obj 24 []) h)"
  let ?h2 = "?h1\<lparr>context_refs := (context_refs h)(uid \<mapsto> length (objs h))\<rparr>"
  let ?w2 = "w\<lparr>user_context := (user_context w)(uid \<mapsto> deque_new 24)\<rparr>"
  have h2: "ensure_context_h uid h = ?h2"
    using none by (simp add: ensure_context_h_alt)
  have w2: "ensure_context uid w = ?w2"
    using None by (simp add: ensure_context_def)
  have rel1: "heap_rel ?h1 w"
    using assms by (rule heap_rel_alloc)
  have new: "lookup ?h2 (length (objs h)) = Some (Deque_obj 24 [])"
    by (simp add: lookup_context_refs_update lookup_alloc)
  have "heap_rel ?h2 ?w2"
    unfolding heap_rel_def
  proof (intro conjI allI impI)
    show "wf_heap ?h2"
      using wf_heap_ensure_context_h [OF heap_relD(1) [OF assms], of uid] by (simp only: h2)
  next
    fix u v a
    assume uv: "context_refs ?h2 u = Some a \<and> context_refs ?h2 v = Some a"
    have old: "a < length (objs h)" if "context_refs h x = Some a" for x
    proof -
      from wf_heap_deque [OF heap_relD(1) [OF assms] that] obtain n
        where "lookup h a = Some (Deque_obj n (deque_refs h x))" by blast
      then show ?thesis by (rule lookup_lt)
    qed
    show "u = v"
    proof (cases "u = uid")
      case True
      with uv have "a = length (objs h)" by simp
      with uv old [of v] True show ?thesis by (cases "v = uid") auto
    next
      case False
      with uv have ua: "context_refs h u = Some a" by simp
      with old have "a < length (objs h)" by blast
      with uv have "v \<noteq> uid" by auto
      with uv have "context_refs h v = Some a" by simp
      with ua show ?thesis using heap_relD(2) [OF assms] by blast
    qed
  next
    fix u
    show "case user_context ?w2 u of
            None \<Rightarrow> context_refs ?h2 u = None
          | Some d \<Rightarrow>
              \<exists>a rs. context_refs ?h2 u = Some a \<and>
                lookup ?h2 a = Some (Deque_obj (maxlen d) rs) \<and>
                map (turn_at ?h2) rs = map Some (items d)"
    proof (cases "u = uid")
      case True
      then show ?thesis
        using new by (simp add: deque_new_def)
    next
      case False
      show ?thesis
      proof (cases "user_context w u")
        case None
        then show ?thesis
          using False heap_relD(3) [OF assms None] by simp
      next
        case (Some d)
        from heap_relD(4) [OF rel1 Some] obtain a rs
          where "context_refs ?h1 u = Some a"
            and "lookup ?h1 a = Some (Deque_obj (maxlen d) rs)"
            and "map (turn_at ?h1) rs = map Some (items d)" by blast
        then show ?thesis
          using False Some
          by (auto simp add: context_refs_alloc lookup_context_refs_update
              turn_at_context_refs_update)
      qed
    qed
  qed
  then show ?thesis
    by (simp only: h2 w2)
qed


lemma map_turn_at_deque_update:
  "lookup h a = Some (Deque_obj n rs) \<Longrightarrow>
   map (turn_at (h\<lparr>objs := (objs h)[a := Deque_obj k xs]\<rparr>)) ys = map (turn_at h) ys"
  by (simp add: turn_at_deque_update)

lemma heap_rel_push:
  assumes "heap_rel h w"
  shows "heap_rel (push_h uid t h) (context_append uid t (ensure_context uid w))"
proof -
  let ?h1 = "ensure_context_h uid h"
  let ?w1 = "ensure_context uid w"
  let ?h2 = "snd (alloc (Dict_obj t) ?h1)"
  let ?r = "length (objs ?h1)"
  have rel1: "heap_rel ?h1 ?w1"
    using assms by (rule heap_rel_ensure_context)
  have rel2: "heap_rel ?h2 ?w1"
    using rel1 by (rule heap_rel_alloc)
  obtain d where d: "user_context ?w1 uid = Some d"
    using ensure_context_defined [of uid w] by auto
  from heap_relD(4) [OF rel2 d] obtain a rs
    where a: "context_refs ?h2 uid = Some a"
      and da: "lookup ?h2 a = Some (Deque_obj (maxlen d) rs)"
      and m: "map (turn_at ?h2) rs = map Some (items d)" by blast
  let ?ys = "if maxlen d < length (rs @ [?r]) then tl (rs @ [?r]) else rs @ [?r]"
  let ?h3 = "?h2\<lparr>objs := (objs ?h2)[a := Deque_obj (maxlen d) ?ys]\<rparr>"
  let ?w3 = "?w1\<lparr>user_context := (user_context ?w1)(uid \<mapsto> deque_append d t)\<rparr>"
  have h3: "push_h uid t h = ?h3"
    using a da by (simp add: push_h_def Let_def case_prod_beta fst_alloc)
  have w3: "context_append uid t ?w1 = ?w3"
    using d by (simp add: context_append_def)
  have a_lt: "a < length (objs ?h2)"
    using da by (rule lookup_lt)
  have new: "turn_at ?h2 ?r = Some t"
    by (simp add: turn_at_def lookup_alloc)
  have turns: "map (turn_at ?h3) xs = map (turn_at ?h2) xs" for xs
    using da by (rule map_turn_at_deque_update)
  have "heap_rel ?h3 ?w3"
    unfolding heap_rel_def
  proof (intro conjI allI impI)
    show "wf_heap ?h3"
      using wf_heap_push_h [OF heap_relD(1) [OF assms], of uid t] by (simp only: h3)
  next
    fix u v b
    assume "context_refs ?h3 u = Some b \<and> context_refs ?h3 v = Some b"
    then show "u = v"
      using heap_relD(2) [OF rel2, of u b v] by simp
  next
    fix u
    show "case user_context ?w3 u of
            None \<Rightarrow> context_refs ?h3 u = None
          | Some d' \<Rightarrow>
              \<exists>b xs. context_refs ?h3 u = Some b \<and>
                lookup ?h3 b = Some (Deque_obj (maxlen d') xs) \<and>
                map (turn_at ?h3) xs = map Some (items d')"
    proof (cases "u = uid")
      case True
      have "lookup ?h3 a = Some (Deque_obj (maxlen d) ?ys)"
        using a_lt by (simp add: lookup_objs_update)
      moreover have "map (turn_at ?h3) ?ys = map Some (items (deque_append d t))"
      proof -
        have len: "length rs = length (items d)"
          using m by (rule map_eq_imp_length_eq)
        have "map (turn_at ?h3) ?ys = map (turn_at ?h2) ?ys"
          by (rule turns)
        also have "\<dots> = map Some (items (deque_append d t))"
          using m new len by (simp add: deque_append_def Let_def map_tl)
        finally show ?thesis .
      qed
      moreover have "maxlen (deque_append d t) = maxlen d"
        by (simp add: deque_append_def Let_def)
      ultimately show ?thesis
        using True a by simp
    next
      case False
      show ?thesis
      proof (cases "user_context ?w1 u")
        case None
        then show ?thesis
          using False heap_relD(3) [OF rel2 None] by simp
      next
        case (Some d')
        from heap_relD(4) [OF rel2 Some] obtain b xs
          where b: "context_refs ?h2 u = Some b"
            and db: "lookup ?h2 b = Some (Deque_obj (maxlen d') xs)"
            and mb: "map (turn_at ?h2) xs = map Some (items d')" by blast
        have "b \<noteq> a"
          using heap_relD(2) [OF rel2 b, of uid] a False by auto
        then have "lookup ?h3 b = Some (Deque_obj (maxlen d') xs)"
          using db by (simp add: lookup_objs_update)
        moreover have "map (turn_at ?h3) xs = map Some (items d')"
          using turns [of xs] mb by (rule trans)
        ultimately show ?thesis
          using False Some b by simp
      qed
    qed
  qed
  then show ?thesis
    by (simp only: h3 w3)
qed

lemma heap_rel_push_user:
  "heap_rel h w \<Longrightarrow> heap_rel (push_user_h uid text h) (push_user uid text w)"
  unfolding push_user_h_def push_user_def by (rule heap_rel_push)

lemma heap_rel_push_assistant:
  "heap_rel h w \<Longrightarrow> heap_rel (push_assistant_h uid text h) (push_assistant uid text w)"
  unfolding push_assistant_h_def push_assistant_def by (rule heap_rel_push)

lemma heap_rel_build_messages:
  assumes "heap_rel h w"
  shows "list_value (snd (build_messages_h uid p h)) (fst (build_messages_h uid p h)) =
           Some (map Some (fst (build_messages uid p w)))"
    and "heap_rel (snd (build_messages_h uid p h)) (snd (build_messages uid p w))"
proof -
  show "list_value (snd (build_messages_h uid p h)) (fst (build_messages_h uid p h)) =
      Some (map Some (fst (build_messages uid p w)))"
    using heap_relD(1) [OF assms] heap_rel_history [OF assms, of uid]
    by (rule build_messages_h_refines)
  have "heap_rel (snd (alloc (List_obj (length (objs (ensure_context_h uid h)) #
        deque_refs (snd (alloc (Dict_obj \<lparr>role = ascii ''system'', content = p\<rparr>)
          (ensure_context_h uid h))) uid))
      (snd (alloc (Dict_obj \<lparr>role = ascii ''system'', content = p\<rparr>) (ensure_context_h uid h)))))
      (ensure_context uid w)"
    using assms by (intro heap_rel_alloc heap_rel_ensure_context)
  then show "heap_rel (snd (build_messages_h uid p h)) (snd (build_messages uid p w))"
    by (simp add: build_messages_h_alt build_messages_snd)
qed


lemma seq_mutate_isolated:
  assumes "wf_heap h"
  shows "stored_history (seq_mutate (fst (build_messages_h uid p h)) f
             (snd (build_messages_h uid p h))) u = stored_history h u"
proof -
  let ?l = "fst (build_messages_h uid p h)"
  let ?h' = "snd (build_messages_h uid p h)"
  obtain xs where at_l: "lookup ?h' ?l = Some (List_obj xs)"
    using build_messages_h_facts(2) [OF assms] by blast
  have "stored_history (seq_mutate ?l f ?h') u = stored_history ?h' u"
    using build_messages_h_facts(1) [OF assms] at_l by (rule stored_history_seq_mutate)
  then show ?thesis
    by (simp add: build_messages_h_facts(4) [OF assms])
qed

section \<open>Capacity and eviction\<close>

text \<open>
  C1. For a user whose stored history is a deque of capacity 24, after any sequence of
  more than 24 appends (\<open>push_user\<close> or \<open>push_assistant\<close>, in any mix) the stored
  history is exactly the last 24 appended turns, in the order of the appends; whatever
  was stored before is gone, and no append fails.
\<close>

theorem history_last_24:
  assumes "context_ok w uid" and "24 < length cs"
  shows "history (run_appends uid cs w) uid = drop (length cs - 24) (map turn_of cs)"
proof -
  have "length (history w uid) \<le> 24"
    using assms(1) by (rule length_history_le)
  then show ?thesis
    using assms(2) by (simp add: history_run_appends [OF assms(1)])
qed

theorem history_last_24_witness:
  "context_ok world0 7 \<and> 24 < length (map (\<lambda>n. Push_user [48 + n]) [0..<25]) \<and>
   history (run_appends 7 (map (\<lambda>n. Push_user [48 + n]) [0..<25]) world0) 7 =
     drop (length (map (\<lambda>n. Push_user [48 + n]) [0..<25]) - 24)
       (map turn_of (map (\<lambda>n. Push_user [48 + n]) [0..<25]))"
proof -
  have ok: "context_ok world0 7"
    by (simp add: context_ok_def world0_def)
  have len: "24 < length (map (\<lambda>n. Push_user [48 + n]) [0..<25])"
    by simp
  show ?thesis
    using ok len history_last_24 [OF ok len] by blast
qed

section \<open>Reset\<close>

text \<open>
  C2. Whatever the store holds, after \<open>cmd_start\<close> for a user the history of that user
  is empty: the snapshot \<open>list(user_context[uid])\<close> that \<open>build_messages\<close> takes next
  has no turn, so the messages built are the system turn alone.
\<close>

theorem reset_then_snapshot_empty:
  "history (cmd_start uid w) uid = [] \<and>
   fst (build_messages uid p (cmd_start uid w)) = [\<lparr>role = ascii ''system'', content = p\<rparr>]"
  by (simp add: cmd_start_def reply_to_def context_clear_def ensure_context_def
      build_messages_def history_def deque_clear_def deque_new_def Let_def
      split: option.splits)

section \<open>Other users\<close>

text \<open>
  C10. \<open>ensure_context\<close>, \<open>push_user\<close>, \<open>push_assistant\<close> and the reset of
  \<open>cmd_start\<close> for one user leave the entry of \<open>user_context\<close> of every other user
  as it was.
\<close>

theorem store_ops_frame:
  assumes "u \<noteq> uid"
  shows "user_context (ensure_context uid w) u = user_context w u \<and>
         user_context (push_user uid text w) u = user_context w u \<and>
         user_context (push_assistant uid text w) u = user_context w u \<and>
         user_context (cmd_start uid w) u = user_context w u"
  using assms
  by (simp add: ensure_context_def push_user_def push_assistant_def context_append_def
      cmd_start_def context_clear_def reply_to_def split: option.splits)

theorem store_ops_frame_witness:
  "(2::int) \<noteq> 1 \<and>
   user_context (ensure_context 1 (push_user 2 [104, 105] world0)) 2 =
     user_context (push_user 2 [104, 105] world0) 2 \<and>
   user_context (push_user 1 [120] (push_user 2 [104, 105] world0)) 2 =
     user_context (push_user 2 [104, 105] world0) 2 \<and>
   user_context (push_assistant 1 [120] (push_user 2 [104, 105] world0)) 2 =
     user_context (push_user 2 [104, 105] world0) 2 \<and>
   user_context (cmd_start 1 (push_user 2 [104, 105] world0)) 2 =
     user_context (push_user 2 [104, 105] world0) 2"
proof -
  have ne: "(2::int) \<noteq> 1" by simp
  show ?thesis
    using ne store_ops_frame [OF ne, of "push_user 2 [104, 105] world0" "[120]"] by blast
qed

section \<open>Router precedence\<close>

text \<open>
  The text \<open>"fetch "\<close> starts with the fetch keyword, but \<open>handle_text\<close> strips it
  before it tests the prefix: what is tested is \<open>"fetch"\<close>, the first three tests fail,
  and the message takes the default path. The user turn \<open>"fetch"\<close> is appended, the
  completion service is called, and its answer is appended and sent.
\<close>

theorem fetch_prefix_counterexample:
  "startswith (ascii ''fetch '') KW_FETCH \<and>
   history (snd (handle_text cfg_example env_example 7 (ascii ''fetch '') world0)) 7 =
     [\<lparr>role = ascii ''user'', content = ascii ''fetch''\<rparr>,
      \<lparr>role = ascii ''assistant'', content = ascii ''ok''\<rparr>] \<and>
   requests (snd (handle_text cfg_example env_example 7 (ascii ''fetch '') world0)) =
     [([\<lparr>role = ascii ''system'', content = SYSTEM_PROMPT\<rparr>,
        \<lparr>role = ascii ''user'', content = ascii ''fetch''\<rparr>], 700)] \<and>
   outbox (snd (handle_text cfg_example env_example 7 (ascii ''fetch '') world0)) =
     [ascii ''ok'']"
  by (simp add: eval_simps)

text \<open>
  C3, amended. Whenever the stripped, lower-cased text starts with \<open>"fetch "\<close>,
  \<open>handle_text\<close> runs the fetch branch and nothing else, whatever else the text
  contains: no request goes to the completion service, no report file is written, and
  the store is either unchanged or has received the one \<open>[WEB]\<close> turn. (With an
  arbitrary \<open>lower\<close> the branch may also end in \<open>IndexError\<close> at the split; the
  conclusion covers that case too.)
\<close>

theorem fetch_takes_precedence:
  assumes "is_fetch e (strip mtext)"
  shows "handle_text cfg e uid mtext w = handle_fetch cfg e uid (strip mtext) w \<and>
         requests (snd (handle_text cfg e uid mtext w)) = requests w \<and>
         files (snd (handle_text cfg e uid mtext w)) = files w \<and>
         (user_context (snd (handle_text cfg e uid mtext w)) = user_context w \<or>
          user_context (snd (handle_text cfg e uid mtext w)) =
            user_context (push_user uid
              (TAG_WEB @ fetch_url_text cfg e
                 (strip (tl (dropWhile (\<lambda>c. c \<noteq> 32) (strip mtext))))) w))"
proof -
  have eq: "handle_text cfg e uid mtext w = handle_fetch cfg e uid (strip mtext) w"
    using assms by (rule handle_text_fetch)
  have ctx: "user_context (snd (handle_fetch cfg e uid (strip mtext) w)) = user_context w \<or>
      user_context (snd (handle_fetch cfg e uid (strip mtext) w)) =
        user_context (push_user uid
          (TAG_WEB @ fetch_url_text cfg e
             (strip (tl (dropWhile (\<lambda>c. c \<noteq> 32) (strip mtext))))) w)"
  proof (cases "32 \<in> set (strip mtext)")
    case True
    show ?thesis
      by (simp add: handle_fetch_def split_space1_has_space [OF True] Let_def frame_simps)
  next
    case False
    show ?thesis
      by (simp add: handle_fetch_def split_space1_no_space [OF False])
  qed
  show ?thesis
    unfolding eq using handle_fetch_frame [of cfg e uid "strip mtext" w] ctx by blast
qed

theorem fetch_takes_precedence_witness:
  "is_fetch env_example (strip (ascii ''Fetch '' @ KW_BAO_CAO)) \<and>
   is_report env_example (strip (ascii ''Fetch '' @ KW_BAO_CAO)) \<and>
   handle_text cfg_example env_example 7 (ascii ''Fetch '' @ KW_BAO_CAO) world0 =
     handle_fetch cfg_example env_example 7 (strip (ascii ''Fetch '' @ KW_BAO_CAO)) world0 \<and>
   requests (snd (handle_text cfg_example env_example 7 (ascii ''Fetch '' @ KW_BAO_CAO) world0)) =
     requests world0 \<and>
   files (snd (handle_text cfg_example env_example 7 (ascii ''Fetch '' @ KW_BAO_CAO) world0)) =
     files world0"
proof -
  have f: "is_fetch env_example (strip (ascii ''Fetch '' @ KW_BAO_CAO))"
    by (simp add: is_fetch_def env_example_def strip_def py_isspace_def lower_ascii_def
        ascii_def KW_FETCH_def KW_BAO_CAO_def)
  have r: "is_report env_example (strip (ascii ''Fetch '' @ KW_BAO_CAO))"
    by (simp add: is_report_def env_example_def strip_def py_isspace_def lower_ascii_def
        ascii_def KW_TAO_BAO_CAO_def KW_BAO_CAO_def)
  show ?thesis
    using f r fetch_takes_precedence [OF f, of cfg_example 7 world0] by blast
qed

section \<open>Fetching disabled\<close>

text \<open>
  C4. With \<open>WEB_SCRAPE_ENABLED\<close> false, a fetch command (stripped text that starts
  with \<open>"fetch "\<close> in lower case and contains a space, as every such text does under
  \<open>str.lower\<close>) is answered by the notice
  that fetching starts and by the reply that no content could be retrieved, and nothing
  else changes: no turn is appended to any history, no request is sent, no file written.
\<close>

theorem fetch_disabled_no_turn:
  assumes "\<not> WEB_SCRAPE_ENABLED cfg"
    and "is_fetch e (strip mtext)"
    and "32 \<in> set (strip mtext)"
  shows "handle_text cfg e uid mtext w =
     (None, w\<lparr>outbox := outbox w @
        [MSG_FETCHING_PRE @ strip (tl (dropWhile (\<lambda>c. c \<noteq> 32) (strip mtext))) @
           MSG_FETCHING_POST,
         MSG_NO_CONTENT]\<rparr>)"
  using assms(1)
  by (simp add: handle_text_fetch [OF assms(2)] handle_fetch_def
      split_space1_has_space [OF assms(3)] fetch_url_text_def reply_to_def Let_def)

theorem fetch_disabled_no_turn_witness:
  "\<not> WEB_SCRAPE_ENABLED cfg_example \<and>
   is_fetch env_example (strip (ascii ''fetch http://example.com'')) \<and>
   32 \<in> set (strip (ascii ''fetch http://example.com'')) \<and>
   handle_text cfg_example env_example 7 (ascii ''fetch http://example.com'') world0 =
     (None, world0\<lparr>outbox := outbox world0 @
        [MSG_FETCHING_PRE @
           strip (tl (dropWhile (\<lambda>c. c \<noteq> 32) (strip (ascii ''fetch http://example.com'')))) @
           MSG_FETCHING_POST,
         MSG_NO_CONTENT]\<rparr>)"
proof -
  have a: "\<not> WEB_SCRAPE_ENABLED cfg_example"
    by (simp add: cfg_example_def)
  have b: "is_fetch env_example (strip (ascii ''fetch http://example.com''))"
    by (simp add: is_fetch_def env_example_def strip_def py_isspace_def lower_ascii_def
        ascii_def KW_FETCH_def)
  have c: "32 \<in> set (strip (ascii ''fetch http://example.com''))"
    by (simp add: strip_def py_isspace_def ascii_def)
  show ?thesis
    using a b c fetch_disabled_no_turn [OF a b c, of 7 world0] by blast
qed

section \<open>Failure of the completion service on a report request\<close>

text \<open>
  C5. On a report request (a text that passes neither the fetch test nor the extraction
  test and passes the report test), if the completion service raises on the messages
  built, then \<open>handle_text\<close> returns normally; the replies sent are the progress notice
  and the static failure reply "Loi khi tao bao cao."; no file is written; and the
  history of every user, the sender included, holds the same turns as before (the
  sender's deque is created empty if there was none).
\<close>

theorem report_failure_leaves_history:
  assumes "\<not> is_fetch e (strip mtext)"
    and "\<not> is_extract e (strip mtext)"
    and "is_report e (strip mtext)"
    and "chat_completion e (fst (build_messages uid SYSTEM_PROMPT w)) 900 = Inl x"
  shows "fst (handle_text cfg e uid mtext w) = None \<and>
         outbox (snd (handle_text cfg e uid mtext w)) =
           outbox w @ [MSG_REPORT_START, MSG_REPORT_FAIL] \<and>
         files (snd (handle_text cfg e uid mtext w)) = files w \<and>
         history (snd (handle_text cfg e uid mtext w)) u = history w u"
proof -
  have "handle_text cfg e uid mtext w = handle_report cfg e uid w"
    using assms(1-3) by (rule handle_text_report)
  then show ?thesis
    by (simp add: handle_report_failure [OF assms(4)] ensure_context_fields history_updates)
qed

theorem report_failure_leaves_history_witness:
  "\<not> is_fetch env_down (strip KW_TAO_BAO_CAO) \<and>
   \<not> is_extract env_down (strip KW_TAO_BAO_CAO) \<and>
   is_report env_down (strip KW_TAO_BAO_CAO) \<and>
   chat_completion env_down
     (fst (build_messages 7 SYSTEM_PROMPT (push_user 7 (ascii ''hi'') world0))) 900 =
     Inl ServiceError \<and>
   fst (handle_text cfg_example env_down 7 KW_TAO_BAO_CAO (push_user 7 (ascii ''hi'') world0)) =
     None \<and>
   outbox (snd (handle_text cfg_example env_down 7 KW_TAO_BAO_CAO
       (push_user 7 (ascii ''hi'') world0))) =
     outbox (push_user 7 (ascii ''hi'') world0) @ [MSG_REPORT_START, MSG_REPORT_FAIL] \<and>
   files (snd (handle_text cfg_example env_down 7 KW_TAO_BAO_CAO
       (push_user 7 (ascii ''hi'') world0))) =
     files (push_user 7 (ascii ''hi'') world0) \<and>
   history (snd (handle_text cfg_example env_down 7 KW_TAO_BAO_CAO
       (push_user 7 (ascii ''hi'') world0))) 7 =
     history (push_user 7 (ascii ''hi'') world0) 7"
proof -
  have a: "\<not> is_fetch env_down (strip KW_TAO_BAO_CAO)"
    by (simp add: is_fetch_def env_down_def env_example_def strip_def py_isspace_def
        lower_ascii_def ascii_def KW_FETCH_def KW_TAO_BAO_CAO_def)
  have b: "\<not> is_extract env_down (strip KW_TAO_BAO_CAO)"
    by (simp add: is_extract_def env_down_def env_example_def strip_def py_isspace_def
        lower_ascii_def ascii_def KW_TRICH_XUAT_def KW_TRICH_XUAT_VI_def KW_TAO_BAO_CAO_def)
  have c: "is_report env_down (strip KW_TAO_BAO_CAO)"
    by (simp add: is_report_def env_down_def env_example_def strip_def py_isspace_def
        lower_ascii_def KW_TAO_BAO_CAO_def)
  have d: "chat_completion env_down
     (fst (build_messages 7 SYSTEM_PROMPT (push_user 7 (ascii ''hi'') world0))) 900 =
     Inl ServiceError"
    by (simp add: env_down_def env_example_def)
  show ?thesis
    using a b c d report_failure_leaves_history [OF a b c d, of cfg_example 7] by blast
qed

section \<open>The plain-text report\<close>




section \<open>The web turn\<close>

text \<open>
  With fetching enabled and a page of 801 letters, the reply shows 800 of them, and the
  turn appended holds all 801 after the tag: it is not the preview of the reply.
\<close>

theorem web_turn_counterexample:
  "fetch_url_text cfg_web env_example (ascii ''http://example.com'') = replicate 801 97 \<and>
   history (snd (handle_text cfg_web env_example 7 (ascii ''fetch http://example.com'') world0)) 7 =
     [\<lparr>role = ascii ''user'', content = TAG_WEB @ replicate 801 97\<rparr>] \<and>
   outbox (snd (handle_text cfg_web env_example 7 (ascii ''fetch http://example.com'') world0)) =
     [MSG_FETCHING_PRE @ ascii ''http://example.com'' @ MSG_FETCHING_POST,
      MSG_SNIPPET @ replicate 800 97] \<and>
   TAG_WEB @ replicate 801 97 \<noteq> TAG_WEB @ take 800 (replicate 801 (97::nat))"
  by (simp add: eval_simps)

text \<open>
  C8, amended. For a fetch command (stripped text that starts with \<open>"fetch "\<close> in lower
  case and contains a space), when \<open>fetch_url_text\<close> returns a non-empty snippet,
  \<open>handle_text\<close> sends the notice and a reply with the first 800 code points of the
  snippet, and appends one user turn holding \<open>"[WEB] "\<close> followed by the whole snippet.
  The snippet is at most 3000 code points long, the bound of \<open>fetch_url_text\<close>.
\<close>

theorem web_turn_whole_snippet:
  assumes "is_fetch e (strip mtext)"
    and "32 \<in> set (strip mtext)"
    and "fetch_url_text cfg e (strip (tl (dropWhile (\<lambda>c. c \<noteq> 32) (strip mtext)))) = snippet"
    and "snippet \<noteq> []"
  shows "handle_text cfg e uid mtext w =
     (None, push_user uid (TAG_WEB @ snippet)
        (w\<lparr>outbox := outbox w @
           [MSG_FETCHING_PRE @ strip (tl (dropWhile (\<lambda>c. c \<noteq> 32) (strip mtext))) @
              MSG_FETCHING_POST,
            MSG_SNIPPET @ take 800 snippet]\<rparr>)) \<and>
     length snippet \<le> 3000"
proof -
  have "length snippet \<le> 3000"
    using length_fetch_url_text [of cfg e] assms(3) by blast
  then show ?thesis
    using assms(3,4)
    by (simp add: handle_text_fetch [OF assms(1)] handle_fetch_def
      split_space1_has_space [OF assms(2)] reply_to_def Let_def)
qed

theorem web_turn_whole_snippet_witness:
  "is_fetch env_example (strip (ascii ''fetch http://example.com'')) \<and>
   32 \<in> set (strip (ascii ''fetch http://example.com'')) \<and>
   fetch_url_text cfg_web env_example
     (strip (tl (dropWhile (\<lambda>c. c \<noteq> 32) (strip (ascii ''fetch http://example.com''))))) =
     replicate 801 97 \<and>
   replicate 801 (97::nat) \<noteq> [] \<and>
   handle_text cfg_web env_example 7 (ascii ''fetch http://example.com'') world0 =
     (None, push_user 7 (TAG_WEB @ replicate 801 97)
        (world0\<lparr>outbox := outbox world0 @
           [MSG_FETCHING_PRE @
              strip (tl (dropWhile (\<lambda>c. c \<noteq> 32) (strip (ascii ''fetch http://example.com'')))) @
              MSG_FETCHING_POST,
            MSG_SNIPPET @ take 800 (replicate 801 97)]\<rparr>)) \<and>
   length (replicate 801 (97::nat)) \<le> 3000"
proof -
  have a: "is_fetch env_example (strip (ascii ''fetch http://example.com''))"
    by (simp add: is_fetch_def env_example_def strip_def py_isspace_def lower_ascii_def
        ascii_def KW_FETCH_def)
  have b: "32 \<in> set (strip (ascii ''fetch http://example.com''))"
    by (simp add: strip_def py_isspace_def ascii_def)
  have c: "fetch_url_text cfg_web env_example
     (strip (tl (dropWhile (\<lambda>c. c \<noteq> 32) (strip (ascii ''fetch http://example.com''))))) =
     replicate 801 97"
    by (simp add: fetch_url_text_def cfg_web_def cfg_example_def env_example_def)
  have d: "replicate 801 (97::nat) \<noteq> []"
    by simp
  show ?thesis
    using a b c d web_turn_whole_snippet [OF a b c d, of 7 world0] by blast
qed

section \<open>A report request that succeeds\<close>

text \<open>
  C9. On a report request for which the completion service answers, the store after
  \<open>handle_text\<close> is the store after one \<open>push_assistant\<close> of the stripped answer,
  whether or not the report is then written: the request text is not appended, and
  where the stored history is a deque of capacity 24 the history of the user is the old
  one followed by the assistant turn, under the capacity rule. Apart from that, on a
  text of the default path for which the service answers, the store is the one after
  \<open>push_user\<close> of the stripped text followed by \<open>push_assistant\<close> of the stripped
  answer, the user turn being part of the messages sent.
\<close>

theorem report_success_one_turn:
  "(\<not> is_fetch e (strip mtext) \<and> \<not> is_extract e (strip mtext) \<and> is_report e (strip mtext) \<and>
    chat_completion e (fst (build_messages uid SYSTEM_PROMPT w)) 900 = Inr c \<longrightarrow>
      user_context (snd (handle_text cfg e uid mtext w)) =
        user_context (push_assistant uid (strip c) w) \<and>
      (context_ok w uid \<longrightarrow>
         history (snd (handle_text cfg e uid mtext w)) uid =
           (let ys = history w uid @ [\<lparr>role = ascii ''assistant'', content = strip c\<rparr>]
            in if 24 < length ys then tl ys else ys))) \<and>
   (\<not> is_fetch e (strip plain) \<and> \<not> is_extract e (strip plain) \<and>
    \<not> is_report e (strip plain) \<and>
    chat_completion e
      (fst (build_messages uid SYSTEM_PROMPT (push_user uid (strip plain) w))) 700 = Inr d \<longrightarrow>
      user_context (snd (handle_text cfg e uid plain w)) =
        user_context (push_assistant uid (strip d) (push_user uid (strip plain) w)))"
proof (intro conjI impI)
  assume r: "\<not> is_fetch e (strip mtext) \<and> \<not> is_extract e (strip mtext) \<and>
    is_report e (strip mtext) \<and>
    chat_completion e (fst (build_messages uid SYSTEM_PROMPT w)) 900 = Inr c"
  then have eq: "handle_text cfg e uid mtext w = handle_report cfg e uid w"
    by (simp add: handle_text_report)
  from r have ans: "chat_completion e (fst (build_messages uid SYSTEM_PROMPT w)) 900 = Inr c"
    by simp
  show ctx: "user_context (snd (handle_text cfg e uid mtext w)) =
      user_context (push_assistant uid (strip c) w)"
    unfolding eq using ans by (rule handle_report_success)
  assume ok: "context_ok w uid"
  have "history (snd (handle_text cfg e uid mtext w)) uid =
      history (push_assistant uid (strip c) w) uid"
    using ctx by (rule history_cong)
  then show "history (snd (handle_text cfg e uid mtext w)) uid =
      (let ys = history w uid @ [\<lparr>role = ascii ''assistant'', content = strip c\<rparr>]
       in if 24 < length ys then tl ys else ys)"
    by (simp only: history_push_assistant [OF ok])
next
  assume p: "\<not> is_fetch e (strip plain) \<and> \<not> is_extract e (strip plain) \<and>
    \<not> is_report e (strip plain) \<and>
    chat_completion e
      (fst (build_messages uid SYSTEM_PROMPT (push_user uid (strip plain) w))) 700 = Inr d"
  then have eq: "handle_text cfg e uid plain w = handle_default e uid (strip plain) w"
    by (simp add: handle_text_default)
  from p have ans: "chat_completion e
      (fst (build_messages uid SYSTEM_PROMPT (push_user uid (strip plain) w))) 700 = Inr d"
    by simp
  show "user_context (snd (handle_text cfg e uid plain w)) =
      user_context (push_assistant uid (strip d) (push_user uid (strip plain) w))"
    unfolding eq using ans by (rule handle_default_success)
qed

theorem report_success_one_turn_witness:
  "\<not> is_fetch env_example (strip KW_TAO_BAO_CAO) \<and>
   \<not> is_extract env_example (strip KW_TAO_BAO_CAO) \<and>
   is_report env_example (strip KW_TAO_BAO_CAO) \<and>
   chat_completion env_example (fst (build_messages 7 SYSTEM_PROMPT world0)) 900 =
     Inr (ascii '' ok '') \<and>
   context_ok world0 7 \<and>
   \<not> is_fetch env_example (strip (ascii ''hello'')) \<and>
   \<not> is_extract env_example (strip (ascii ''hello'')) \<and>
   \<not> is_report env_example (strip (ascii ''hello'')) \<and>
   chat_completion env_example
     (fst (build_messages 7 SYSTEM_PROMPT (push_user 7 (strip (ascii ''hello'')) world0))) 700 =
     Inr (ascii '' ok '') \<and>
   user_context (snd (handle_text cfg_example env_example 7 KW_TAO_BAO_CAO world0)) =
     user_context (push_assistant 7 (strip (ascii '' ok '')) world0) \<and>
   history (snd (handle_text cfg_example env_example 7 KW_TAO_BAO_CAO world0)) 7 =
     (let ys = history world0 7 @
        [\<lparr>role = ascii ''assistant'', content = strip (ascii '' ok '')\<rparr>]
      in if 24 < length ys then tl ys else ys) \<and>
   user_context (snd (handle_text cfg_example env_example 7 (ascii ''hello'') world0)) =
     user_context (push_assistant 7 (strip (ascii '' ok ''))
       (push_user 7 (strip (ascii ''hello'')) world0))"
proof -
  have a: "\<not> is_fetch env_example (strip KW_TAO_BAO_CAO)"
    by (simp add: is_fetch_def env_example_def strip_def py_isspace_def
        lower_ascii_def ascii_def KW_FETCH_def KW_TAO_BAO_CAO_def)
  have b: "\<not> is_extract env_example (strip KW_TAO_BAO_CAO)"
    by (simp add: is_extract_def env_example_def strip_def py_isspace_def
        lower_ascii_def ascii_def KW_TRICH_XUAT_def KW_TRICH_XUAT_VI_def KW_TAO_BAO_CAO_def)
  have c: "is_report env_example (strip KW_TAO_BAO_CAO)"
    by (simp add: is_report_def env_example_def strip_def py_isspace_def
        lower_ascii_def KW_TAO_BAO_CAO_def)
  have d: "chat_completion env_example (fst (build_messages 7 SYSTEM_PROMPT world0)) 900 =
     Inr (ascii '' ok '')"
    by (simp add: env_example_def)
  have ok: "context_ok world0 7"
    by (simp add: context_ok_def world0_def)
  have a': "\<not> is_fetch env_example (strip (ascii ''hello''))"
    by (simp add: is_fetch_def env_example_def strip_def py_isspace_def
        lower_ascii_def ascii_def KW_FETCH_def)
  have b': "\<not> is_extract env_example (strip (ascii ''hello''))"
    by (simp add: is_extract_def env_example_def strip_def py_isspace_def
        lower_ascii_def ascii_def KW_TRICH_XUAT_def KW_TRICH_XUAT_VI_def)
  have c': "\<not> is_report env_example (strip (ascii ''hello''))"
    by (simp add: is_report_def env_example_def strip_def py_isspace_def
        lower_ascii_def ascii_def KW_TAO_BAO_CAO_def KW_BAO_CAO_def)
  have d': "chat_completion env_example
     (fst (build_messages 7 SYSTEM_PROMPT (push_user 7 (strip (ascii ''hello'')) world0))) 700 =
     Inr (ascii '' ok '')"
    by (simp add: env_example_def)
  show ?thesis
    using a b c d ok a' b' c' d'
      report_success_one_turn [of env_example KW_TAO_BAO_CAO 7 world0 "ascii '' ok ''"
        cfg_example "ascii ''hello''" "ascii '' ok ''"]
    by blast
qed

section \<open>The snapshot\<close>

text \<open>
  One turn is stored, then \<open>build_messages\<close> is called: the list returned holds the
  reference of the new system turn and, as its second element, the reference that the
  deque holds. Setting the content of that element, as \<open>msgs[1]["content"] = "x"\<close>
  does, changes the stored history: the turns are shared with the store.
\<close>

theorem snapshot_element_alias_counterexample:
  "stored_history
     (snd (build_messages_h 7 SYSTEM_PROMPT (push_user_h 7 (ascii ''hi'') heap0))) 7 =
     [Some \<lparr>role = ascii ''user'', content = ascii ''hi''\<rparr>] \<and>
   list_refs (snd (build_messages_h 7 SYSTEM_PROMPT (push_user_h 7 (ascii ''hi'') heap0)))
     (fst (build_messages_h 7 SYSTEM_PROMPT (push_user_h 7 (ascii ''hi'') heap0))) = [2, 1] \<and>
   deque_refs (snd (build_messages_h 7 SYSTEM_PROMPT (push_user_h 7 (ascii ''hi'') heap0))) 7 =
     [1] \<and>
   stored_history
     (dict_set_content 1 (ascii ''x'')
        (snd (build_messages_h 7 SYSTEM_PROMPT (push_user_h 7 (ascii ''hi'') heap0)))) 7 =
     [Some \<lparr>role = ascii ''user'', content = ascii ''x''\<rparr>]"
  by (simp add: heap_eval_simps dict_set_content_def list_refs_def)

text \<open>
  C7, amended. Where the heap represents the store, \<open>build_messages\<close> returns a list
  whose turns are the system turn followed by the current turns of the user in
  insertion order. The list is a new object whose elements after the first are the
  references the deque holds. Whatever is done to the sequence at the returned address
  (elements added, removed, replaced or reordered), the stored history of every user
  holds the same turns as before and \<open>user_context\<close> refers to the same deques.
\<close>

theorem snapshot_not_aliased:
  assumes "heap_rel h w"
  shows "list_value (snd (build_messages_h uid p h)) (fst (build_messages_h uid p h)) =
           Some (map Some (fst (build_messages uid p w))) \<and>
         fst (build_messages uid p w) =
           \<lparr>role = ascii ''system'', content = p\<rparr> # history w uid \<and>
         tl (list_refs (snd (build_messages_h uid p h)) (fst (build_messages_h uid p h))) =
           deque_refs (snd (build_messages_h uid p h)) uid \<and>
         stored_history (snd (build_messages_h uid p h)) u = map Some (history w u) \<and>
         stored_history (seq_mutate (fst (build_messages_h uid p h)) f
             (snd (build_messages_h uid p h))) u = map Some (history w u) \<and>
         context_refs (seq_mutate (fst (build_messages_h uid p h)) f
             (snd (build_messages_h uid p h))) = context_refs (ensure_context_h uid h)"
proof -
  have wf: "wf_heap h"
    using assms by (rule heap_relD(1))
  have hist: "stored_history h u = map Some (history w u)"
    using assms by (rule heap_rel_history)
  have msgs: "fst (build_messages uid p w) =
      \<lparr>role = ascii ''system'', content = p\<rparr> # history w uid"
    by (simp add: build_messages_def Let_def)
  show ?thesis
    using heap_rel_build_messages(1) [OF assms, of uid p] msgs
      build_messages_h_facts(4,5,6) [OF wf, of uid p]
      seq_mutate_isolated [OF wf, of uid p f u] hist
    by (simp add: context_refs_seq_mutate)
qed

theorem snapshot_not_aliased_witness:
  "heap_rel (push_user_h 7 (ascii ''hi'') heap0) (push_user 7 (ascii ''hi'') world0) \<and>
   list_value (snd (build_messages_h 7 SYSTEM_PROMPT (push_user_h 7 (ascii ''hi'') heap0)))
       (fst (build_messages_h 7 SYSTEM_PROMPT (push_user_h 7 (ascii ''hi'') heap0))) =
     Some (map Some (fst (build_messages 7 SYSTEM_PROMPT (push_user 7 (ascii ''hi'') world0)))) \<and>
   tl (list_refs (snd (build_messages_h 7 SYSTEM_PROMPT (push_user_h 7 (ascii ''hi'') heap0)))
        (fst (build_messages_h 7 SYSTEM_PROMPT (push_user_h 7 (ascii ''hi'') heap0)))) =
     deque_refs (snd (build_messages_h 7 SYSTEM_PROMPT (push_user_h 7 (ascii ''hi'') heap0))) 7 \<and>
   stored_history
       (seq_mutate (fst (build_messages_h 7 SYSTEM_PROMPT (push_user_h 7 (ascii ''hi'') heap0)))
          (\<lambda>rs. [])
          (snd (build_messages_h 7 SYSTEM_PROMPT (push_user_h 7 (ascii ''hi'') heap0)))) 7 =
     map Some (history (push_user 7 (ascii ''hi'') world0) 7) \<and>
   history (push_user 7 (ascii ''hi'') world0) 7 =
     [\<lparr>role = ascii ''user'', content = ascii ''hi''\<rparr>]"
proof -
  have rel: "heap_rel (push_user_h 7 (ascii ''hi'') heap0) (push_user 7 (ascii ''hi'') world0)"
    using heap_rel0 by (rule heap_rel_push_user)
  have hist: "history (push_user 7 (ascii ''hi'') world0) 7 =
      [\<lparr>role = ascii ''user'', content = ascii ''hi''\<rparr>]"
    by (simp add: eval_simps)
  show ?thesis
    using rel hist snapshot_not_aliased [OF rel, of 7 SYSTEM_PROMPT 7 "\<lambda>rs. []"]
    by blast
qed

end
